theory Spec2Isabelle
  imports Main "HOL-Library.Word" "HOL-Library.Monad_Syntax"
begin

unbundle bit_operations_syntax

section \<open>Machine model\<close>

text \<open>
  The code is modelled for an LP64 platform: \<open>size_t\<close> and pointers are 64-bit words
  (arithmetic wraps), a C \<open>int\<close> is a mathematical integer wherever the code only
  compares or counts with it, and is stored in memory as four little-endian bytes.
  Memory is a flat array of bytes.  The operating system hands out address ranges; the
  state records the ranges currently mapped, and a load or store outside them has no
  defined result.  Every function of the model returns an \<open>option\<close>: \<open>None\<close> stands
  for undefined behaviour of the C program (an access outside the mapped ranges, an
  array index outside its array), \<open>Some\<close> for a normal return.  A null pointer
  returned by the code is the value \<open>Some NULL\<close>, never \<open>None\<close>.
\<close>

type_synonym addr = "64 word"
type_synonym size_t = "64 word"
type_synonym byte = "8 word"
type_synonym tid = nat

definition NULL :: addr where
  "NULL = 0"

subsection \<open>Configuration constants of \<open>numa_alloc.c\<close>\<close>

definition MAX_NUMA_NODES :: nat where
  "MAX_NUMA_NODES = 8"

definition SIZE_CLASSES :: nat where
  "SIZE_CLASSES = 8"

definition REFILL_BATCH_SIZE :: nat where
  "REFILL_BATCH_SIZE = 64"

definition HUGE_PAGE_SIZE :: size_t where
  "HUGE_PAGE_SIZE = 2 * 1024 * 1024"

definition SIZE_CLASS_SIZES :: "size_t list" where
  "SIZE_CLASS_SIZES = [16, 32, 64, 128, 256, 512, 1024, 2048]"

text \<open>\<open>sizeof(block_header_t)\<close>: a \<open>size_t\<close> and two \<open>int\<close>s.\<close>

definition HEADER_SIZE :: size_t where
  "HEADER_SIZE = 16"

text \<open>The page size of the modelled platform; the kernel maps whole pages.\<close>

definition OS_PAGE_SIZE :: nat where
  "OS_PAGE_SIZE = 4096"

definition page_round :: "nat \<Rightarrow> nat" where
  "page_round n = ((n + (OS_PAGE_SIZE - 1)) div OS_PAGE_SIZE) * OS_PAGE_SIZE"

subsection \<open>Size classes\<close>

text \<open>
  \<open>get_size_class\<close>: the loop \<open>for (i = 0; i < SIZE_CLASSES; i++)\<close> returning the
  first index whose class size is at least the request, and \<open>-1\<close> after the loop.
\<close>

function get_size_class_from :: "nat \<Rightarrow> size_t \<Rightarrow> int" where
  "get_size_class_from i sz =
     (if i < SIZE_CLASSES
      then (if sz \<le> SIZE_CLASS_SIZES ! i then int i else get_size_class_from (i + 1) sz)
      else - 1)"
  by pat_completeness auto
termination
  by (relation "measure (\<lambda>(i, sz). SIZE_CLASSES - i)") auto

declare get_size_class_from.simps [simp del]

definition get_size_class :: "size_t \<Rightarrow> int" where
  "get_size_class sz = get_size_class_from 0 sz"

subsection \<open>Data structures of \<open>numa_alloc.c\<close>\<close>

record numa_topology_t =
  num_nodes :: int
  num_cpus :: int
  cpu_to_node_map :: "int list"

text \<open>\<open>free_lists\<close> holds the \<open>SIZE_CLASSES\<close> list heads of the arena.\<close>

record thread_arena_t =
  numa_node :: int
  free_lists :: "addr list"
  stats_allocs :: size_t
  stats_frees :: size_t

text \<open>The mutex of a pool is left out: every operation of the model is atomic.\<close>

record node_pool_t =
  node_id :: int
  base_addr :: addr
  total_size :: size_t
  used :: size_t

record block_header_t =
  hdr_size :: size_t
  hdr_size_class :: int
  hdr_numa_node :: int

text \<open>
  The globals \<open>g_topology\<close>, \<open>g_node_pools\<close> and \<open>g_initialized\<close>, the thread-local
  \<open>my_arena\<close> of every thread, the bytes of memory and the address ranges
  (start, length) that are currently mapped.
\<close>

record alloc_state =
  g_topology :: "numa_topology_t option"
  g_node_pools :: "node_pool_t option list"
  g_initialized :: bool
  my_arena :: "tid \<Rightarrow> thread_arena_t option"
  mem :: "addr \<Rightarrow> byte"
  mapped :: "(addr \<times> nat) list"

text \<open>
  What the operating system and the C library answer during one call of the allocator:
  the results of libnuma's queries, whether each \<open>calloc\<close> succeeds, the CPU the
  thread runs on, and the address the kernel would choose for a new mapping (\<open>None\<close>:
  the call fails).
\<close>

record os_env =
  numa_available :: bool
  numa_max_node :: int
  numa_num_configured_cpus :: int
  sysconf_nprocessors :: int
  numa_node_of_cpu :: "int \<Rightarrow> int"
  calloc_topology :: bool
  calloc_cpu_map :: bool
  calloc_pool :: "int \<Rightarrow> bool"
  pool_memory :: "int \<Rightarrow> addr option"
  calloc_arena :: bool
  sched_getcpu :: int
  mmap_hugetlb :: "addr option"
  mmap_anon :: "addr option"

subsection \<open>Memory\<close>

text \<open>A C array read at an index outside the array has no defined result.\<close>

definition idx :: "'a list \<Rightarrow> int \<Rightarrow> 'a option" where
  "idx xs i = (if 0 \<le> i \<and> i < int (length xs) then Some (xs ! nat i) else None)"

definition in_range :: "addr \<times> nat \<Rightarrow> addr \<Rightarrow> nat \<Rightarrow> bool" where
  "in_range r a n = (unat (fst r) \<le> unat a \<and> unat a + n \<le> unat (fst r) + snd r)"

definition accessible :: "alloc_state \<Rightarrow> addr \<Rightarrow> nat \<Rightarrow> bool" where
  "accessible s a n = (unat a + n \<le> 2 ^ 64 \<and> list_ex (\<lambda>r. in_range r a n) (mapped s))"

text \<open>Little-endian encoding of a word in \<open>n\<close> bytes, and decoding.\<close>

definition le_bytes :: "nat \<Rightarrow> 'a::len word \<Rightarrow> byte list" where
  "le_bytes n w = map (\<lambda>k. ucast (drop_bit (8 * k) w)) [0..<n]"

definition le_word :: "byte list \<Rightarrow> 'a::len word" where
  "le_word bs = word_of_int (horner_sum uint (2 ^ 8) bs)"

definition load_bytes :: "(addr \<Rightarrow> byte) \<Rightarrow> addr \<Rightarrow> nat \<Rightarrow> byte list" where
  "load_bytes m a n = map (\<lambda>i. m (a + of_nat i)) [0..<n]"

definition store_bytes :: "(addr \<Rightarrow> byte) \<Rightarrow> addr \<Rightarrow> byte list \<Rightarrow> (addr \<Rightarrow> byte)" where
  "store_bytes m a bs = (\<lambda>x. if unat (x - a) < length bs then bs ! unat (x - a) else m x)"

text \<open>
  A \<open>block_header_t\<close> in memory: \<open>size\<close> at offset 0, \<open>size_class\<close> at offset 8,
  \<open>numa_node\<close> at offset 12.
\<close>

definition header_bytes :: "block_header_t \<Rightarrow> byte list" where
  "header_bytes h = le_bytes 8 (hdr_size h)
       @ le_bytes 4 (word_of_int (hdr_size_class h) :: 32 word)
       @ le_bytes 4 (word_of_int (hdr_numa_node h) :: 32 word)"

definition header_at :: "(addr \<Rightarrow> byte) \<Rightarrow> addr \<Rightarrow> block_header_t" where
  "header_at m a =
     \<lparr> hdr_size = le_word (load_bytes m a 8),
       hdr_size_class = sint (le_word (load_bytes m (a + 8) 4) :: 32 word),
       hdr_numa_node = sint (le_word (load_bytes m (a + 12) 4) :: 32 word) \<rparr>"

definition read_header :: "alloc_state \<Rightarrow> addr \<Rightarrow> block_header_t option" where
  "read_header s a = (if accessible s a 16 then Some (header_at (mem s) a) else None)"

definition write_header :: "alloc_state \<Rightarrow> addr \<Rightarrow> block_header_t \<Rightarrow> alloc_state option" where
  "write_header s a h =
     (if accessible s a 16 then Some (s\<lparr>mem := store_bytes (mem s) a (header_bytes h)\<rparr>)
      else None)"

text \<open>The \<open>next\<close> field of a \<open>free_list_t\<close>: the first eight bytes of the block.\<close>

definition next_at :: "(addr \<Rightarrow> byte) \<Rightarrow> addr \<Rightarrow> addr" where
  "next_at m a = le_word (load_bytes m a 8)"

definition read_next :: "alloc_state \<Rightarrow> addr \<Rightarrow> addr option" where
  "read_next s a = (if accessible s a 8 then Some (next_at (mem s) a) else None)"

definition write_next :: "alloc_state \<Rightarrow> addr \<Rightarrow> addr \<Rightarrow> alloc_state option" where
  "write_next s a v =
     (if accessible s a 8 then Some (s\<lparr>mem := store_bytes (mem s) a (le_bytes 8 v)\<rparr>)
      else None)"

definition memset_mem :: "(addr \<Rightarrow> byte) \<Rightarrow> addr \<Rightarrow> byte \<Rightarrow> size_t \<Rightarrow> (addr \<Rightarrow> byte)" where
  "memset_mem m p c n = (\<lambda>x. if x - p < n then c else m x)"

definition memset :: "alloc_state \<Rightarrow> addr \<Rightarrow> byte \<Rightarrow> size_t \<Rightarrow> alloc_state option" where
  "memset s p c n =
     (if accessible s p (unat n) then Some (s\<lparr>mem := memset_mem (mem s) p c n\<rparr>) else None)"

definition memcpy_mem :: "(addr \<Rightarrow> byte) \<Rightarrow> addr \<Rightarrow> addr \<Rightarrow> size_t \<Rightarrow> (addr \<Rightarrow> byte)" where
  "memcpy_mem m dst src n = (\<lambda>x. if x - dst < n then m (src + (x - dst)) else m x)"

text \<open>\<open>memcpy\<close> is defined for ranges that are accessible and do not overlap.\<close>

definition memcpy :: "alloc_state \<Rightarrow> addr \<Rightarrow> addr \<Rightarrow> size_t \<Rightarrow> alloc_state option" where
  "memcpy s dst src n =
     (if accessible s dst (unat n) \<and> accessible s src (unat n)
         \<and> (unat dst + unat n \<le> unat src \<or> unat src + unat n \<le> unat dst)
      then Some (s\<lparr>mem := memcpy_mem (mem s) dst src n\<rparr>) else None)"

subsection \<open>The operating system\<close>

text \<open>
  \<open>mmap\<close> of \<open>len\<close> bytes at the address the environment proposes.  The result
  \<open>None\<close> is \<open>MAP_FAILED\<close>: a length of zero is rejected, and so is a proposal
  that is null, leaves the address space or overlaps a range that is already mapped,
  since the kernel never answers with one.  The kernel maps whole pages.
\<close>

definition region_free :: "alloc_state \<Rightarrow> addr \<Rightarrow> nat \<Rightarrow> bool" where
  "region_free s a n =
     list_all (\<lambda>r. unat a + n \<le> unat (fst r) \<or> unat (fst r) + snd r \<le> unat a) (mapped s)"

definition os_mmap :: "alloc_state \<Rightarrow> addr option \<Rightarrow> size_t \<Rightarrow> (alloc_state \<times> addr) option" where
  "os_mmap s proposal len =
     (case proposal of
        None \<Rightarrow> None
      | Some a \<Rightarrow>
          if len = 0 \<or> a = NULL \<or> 2 ^ 64 < unat a + page_round (unat len)
             \<or> \<not> region_free s a (page_round (unat len))
          then None
          else Some (s\<lparr>mapped := (a, page_round (unat len)) # mapped s\<rparr>, a))"

text \<open>
  \<open>munmap\<close> (and \<open>numa_free\<close>) of \<open>len\<close> bytes at \<open>base\<close> releases the pages of the
  mapping that starts there.  The model has whole mappings only: releasing anything but
  one whole mapping has no result in it.
\<close>

definition os_munmap :: "alloc_state \<Rightarrow> addr \<Rightarrow> size_t \<Rightarrow> alloc_state option" where
  "os_munmap s base len =
     (if (base, page_round (unat len)) \<in> set (mapped s)
      then Some (s\<lparr>mapped := remove1 (base, page_round (unat len)) (mapped s)\<rparr>)
      else None)"

subsection \<open>Topology\<close>

text \<open>
  \<open>discover_numa_topology\<close>; the result \<open>None\<close> is the null pointer it returns when a
  \<open>calloc\<close> fails.
\<close>

definition discover_numa_topology :: "os_env \<Rightarrow> numa_topology_t option" where
  "discover_numa_topology e =
     (if \<not> calloc_topology e then None
      else if \<not> numa_available e then
        (if \<not> calloc_cpu_map e then None
         else Some \<lparr> num_nodes = 1, num_cpus = sysconf_nprocessors e,
                     cpu_to_node_map = replicate (nat (sysconf_nprocessors e)) 0 \<rparr>)
      else
        (if \<not> calloc_cpu_map e then None
         else Some \<lparr> num_nodes = numa_max_node e + 1,
                     num_cpus = numa_num_configured_cpus e,
                     cpu_to_node_map = map (\<lambda>cpu. numa_node_of_cpu e (int cpu))
                                           [0..<nat (numa_num_configured_cpus e)] \<rparr>))"

definition get_current_numa_node :: "alloc_state \<Rightarrow> os_env \<Rightarrow> int option" where
  "get_current_numa_node s e =
     (case g_topology s of
        None \<Rightarrow> Some 0
      | Some topo \<Rightarrow>
          let cpu = sched_getcpu e in
          if cpu < 0 \<or> cpu \<ge> num_cpus topo then Some 0
          else idx (cpu_to_node_map topo) cpu)"

subsection \<open>Node pools\<close>

text \<open>
  \<open>create_node_pool\<close>: the pool's memory comes from \<open>numa_alloc_onnode\<close> or from
  \<open>mmap\<close>, both a fresh mapping of \<open>size\<close> bytes, and is zeroed.  The result carries
  the null pointer of a failure as \<open>None\<close> in its second component.
\<close>

definition create_node_pool ::
  "alloc_state \<Rightarrow> os_env \<Rightarrow> int \<Rightarrow> size_t \<Rightarrow> (alloc_state \<times> node_pool_t option) option" where
  "create_node_pool s e node sz =
     (if \<not> calloc_pool e node then Some (s, None)
      else case os_mmap s (pool_memory e node) sz of
        None \<Rightarrow> Some (s, None)
      | Some (s1, base) \<Rightarrow> do {
          s2 \<leftarrow> memset s1 base 0 sz;
          Some (s2, Some \<lparr> node_id = node, base_addr = base, total_size = sz, used = 0 \<rparr>)
        })"

subsection \<open>Thread-local arenas\<close>

definition create_arena :: "alloc_state \<Rightarrow> os_env \<Rightarrow> thread_arena_t option option" where
  "create_arena s e =
     (if \<not> calloc_arena e then Some None
      else do {
        node \<leftarrow> get_current_numa_node s e;
        Some (Some \<lparr> numa_node = node, free_lists = replicate SIZE_CLASSES NULL,
                     stats_allocs = 0, stats_frees = 0 \<rparr>)
      })"

definition get_or_create_arena ::
  "alloc_state \<Rightarrow> os_env \<Rightarrow> tid \<Rightarrow> (alloc_state \<times> thread_arena_t option) option" where
  "get_or_create_arena s e t =
     (case my_arena s t of
        Some arena \<Rightarrow> Some (s, Some arena)
      | None \<Rightarrow> do {
          a \<leftarrow> create_arena s e;
          Some (s\<lparr>my_arena := (my_arena s)(t := a)\<rparr>, a)
        })"

definition set_arena :: "alloc_state \<Rightarrow> tid \<Rightarrow> thread_arena_t \<Rightarrow> alloc_state" where
  "set_arena s t arena = s\<lparr>my_arena := (my_arena s)(t := Some arena)\<rparr>"

subsection \<open>Large blocks\<close>

text \<open>
  The block of \<open>allocate_large_block\<close> that binds a mapping to its node.  It runs
  when libnuma is available and \<open>numa_node < numa_max_node() + 1\<close>; the shift
  \<open>1UL << numa_node\<close> in it is defined for a node from 0 to 63 only.  The result of
  \<open>mbind\<close> is ignored, and \<open>mbind\<close> leaves the contents of the memory alone.
\<close>

definition bind_to_node :: "os_env \<Rightarrow> int \<Rightarrow> unit option" where
  "bind_to_node e node =
     (if numa_available e \<and> node < numa_max_node e + 1
      then (if 0 \<le> node \<and> node < 64 then Some () else None)
      else Some ())"

definition allocate_large_block ::
  "alloc_state \<Rightarrow> os_env \<Rightarrow> int \<Rightarrow> size_t \<Rightarrow> (alloc_state \<times> addr) option" where
  "allocate_large_block s e node sz =
     (let total_size = sz + HEADER_SIZE;
          aligned_size =
            (if total_size \<ge> HUGE_PAGE_SIZE
             then (total_size + HUGE_PAGE_SIZE - 1) AND NOT (HUGE_PAGE_SIZE - 1)
             else total_size);
          ptr =
            (if aligned_size \<ge> HUGE_PAGE_SIZE
             then (case os_mmap s (mmap_hugetlb e) aligned_size of
                     None \<Rightarrow> os_mmap s (mmap_anon e) aligned_size
                   | Some r \<Rightarrow> Some r)
             else os_mmap s (mmap_anon e) aligned_size)
      in case ptr of
           None \<Rightarrow> Some (s, NULL)
         | Some (s1, p) \<Rightarrow> do {
             u \<leftarrow> bind_to_node e node;
             s2 \<leftarrow> memset s1 p 0 aligned_size;
             s3 \<leftarrow> write_header s2 p
                     \<lparr> hdr_size = aligned_size, hdr_size_class = - 1, hdr_numa_node = node \<rparr>;
             Some (s3, p + HEADER_SIZE)
           })"

definition free_large_block :: "alloc_state \<Rightarrow> addr \<Rightarrow> alloc_state option" where
  "free_large_block s ptr =
     (if ptr = NULL then Some s
      else do {
        header \<leftarrow> read_header s (ptr - HEADER_SIZE);
        os_munmap s (ptr - HEADER_SIZE) (hdr_size header)
      })"

subsection \<open>Slow path\<close>

text \<open>
  The loop of \<open>slow_path_alloc\<close> that carves the batch: iteration \<open>i\<close> writes the
  header of block \<open>i\<close> and pushes the block on the list \<open>head\<close>.
\<close>

function carve_batch ::
  "alloc_state \<Rightarrow> addr \<Rightarrow> size_t \<Rightarrow> block_header_t \<Rightarrow> nat \<Rightarrow> addr \<Rightarrow> (alloc_state \<times> addr) option"
  where
  "carve_batch s batch_start stride h i head =
     (if i < REFILL_BATCH_SIZE then
        (let block_base = batch_start + of_nat i * stride;
             block = block_base + HEADER_SIZE
         in case write_header s block_base h of
              None \<Rightarrow> None
            | Some s1 \<Rightarrow>
                (case write_next s1 block head of
                   None \<Rightarrow> None
                 | Some s2 \<Rightarrow> carve_batch s2 batch_start stride h (i + 1) block))
      else Some (s, head))"
  by pat_completeness auto
termination
  by (relation "measure (\<lambda>(s, batch_start, stride, h, i, head). REFILL_BATCH_SIZE - i)") auto

declare carve_batch.simps [simp del]

text \<open>
  \<open>slow_path_alloc\<close>; its \<open>arena\<close> argument is the arena of the calling thread \<open>t\<close>.
\<close>

definition slow_path_alloc ::
  "alloc_state \<Rightarrow> os_env \<Rightarrow> tid \<Rightarrow> size_t \<Rightarrow> int \<Rightarrow> (alloc_state \<times> addr) option" where
  "slow_path_alloc s e t sz cls =
     (case my_arena s t of
        None \<Rightarrow> None
      | Some arena \<Rightarrow>
          if cls < 0 then allocate_large_block s e (numa_node arena) sz
          else do {
            pool_ptr \<leftarrow> idx (g_node_pools s) (numa_node arena);
            case pool_ptr of
              None \<Rightarrow> Some (s, NULL)
            | Some pool \<Rightarrow> do {
                block_size \<leftarrow> idx SIZE_CLASS_SIZES cls;
                let total_needed = (block_size + HEADER_SIZE) * of_nat REFILL_BATCH_SIZE;
                if used pool + total_needed > total_size pool then Some (s, NULL)
                else do {
                  let batch_start = base_addr pool + used pool;
                  let s1 = s\<lparr>g_node_pools := (g_node_pools s)
                              [nat (numa_node arena) := Some (pool\<lparr>used := used pool + total_needed\<rparr>)]\<rparr>;
                  let stride = block_size + HEADER_SIZE;
                  (s2, head) \<leftarrow> carve_batch s1 batch_start stride
                       \<lparr> hdr_size = block_size, hdr_size_class = cls,
                         hdr_numa_node = numa_node arena \<rparr> 0 NULL;
                  rest \<leftarrow> read_next s2 head;
                  Some (set_arena s2 t
                          (arena\<lparr>free_lists := (free_lists arena)[nat cls := rest]\<rparr>),
                        head)
                }
              }
          })"

subsection \<open>Allocation and free\<close>

definition numalloc :: "alloc_state \<Rightarrow> os_env \<Rightarrow> tid \<Rightarrow> size_t \<Rightarrow> (alloc_state \<times> addr) option" where
  "numalloc s e t sz =
     (if sz = 0 then Some (s, NULL)
      else if \<not> g_initialized s then Some (s, NULL)
      else do {
        (s1, a) \<leftarrow> get_or_create_arena s e t;
        case a of
          None \<Rightarrow> Some (s1, NULL)
        | Some arena \<Rightarrow> do {
            let cls = get_size_class sz;
            cached \<leftarrow> (if cls \<ge> 0 then idx (free_lists arena) cls
                        else Some NULL);
            if cls \<ge> 0 \<and> cached \<noteq> NULL then do {
              rest \<leftarrow> read_next s1 cached;
              Some (set_arena s1 t
                      (arena\<lparr>free_lists := (free_lists arena)[nat cls := rest],
                             stats_allocs := stats_allocs arena + 1\<rparr>),
                    cached)
            }
            else do {
              (s2, ptr) \<leftarrow> slow_path_alloc s1 e t sz cls;
              if ptr \<noteq> NULL then do {
                arena2 \<leftarrow> my_arena s2 t;
                Some (set_arena s2 t (arena2\<lparr>stats_allocs := stats_allocs arena2 + 1\<rparr>), ptr)
              }
              else Some (s2, ptr)
            }
          }
      })"

definition numalloc_free :: "alloc_state \<Rightarrow> os_env \<Rightarrow> tid \<Rightarrow> addr \<Rightarrow> alloc_state option" where
  "numalloc_free s e t ptr =
     (if ptr = NULL then Some s
      else do {
        header \<leftarrow> read_header s (ptr - HEADER_SIZE);
        let cls = hdr_size_class header;
        if cls < 0 then free_large_block s ptr
        else do {
          (s1, a) \<leftarrow> get_or_create_arena s e t;
          case a of
            None \<Rightarrow> Some s1
          | Some arena \<Rightarrow> do {
              old_head \<leftarrow> idx (free_lists arena) cls;
              s2 \<leftarrow> write_next s1 ptr old_head;
              Some (set_arena s2 t
                      (arena\<lparr>free_lists := (free_lists arena)[nat cls := ptr],
                             stats_frees := stats_frees arena + 1\<rparr>))
            }
        }
      })"

subsection \<open>Public interface\<close>

text \<open>
  The loop of \<open>numalloc_init\<close> over the nodes of the topology.  The store into
  \<open>g_node_pools[i]\<close> is defined for \<open>i < MAX_NUMA_NODES\<close> only.
\<close>

function init_pools ::
  "alloc_state \<Rightarrow> os_env \<Rightarrow> size_t \<Rightarrow> int \<Rightarrow> int \<Rightarrow> (alloc_state \<times> int) option" where
  "init_pools s e pool_size_per_node nodes i =
     (if i < nodes then
        (case create_node_pool s e i pool_size_per_node of
           None \<Rightarrow> None
         | Some (s1, pool) \<Rightarrow>
             if 0 \<le> i \<and> i < int MAX_NUMA_NODES then
               (let s2 = s1\<lparr>g_node_pools := (g_node_pools s1)[nat i := pool]\<rparr>
                in if pool = None then Some (s2, - 1)
                   else init_pools s2 e pool_size_per_node nodes (i + 1))
             else None)
      else Some (s\<lparr>g_initialized := True\<rparr>, 0))"
  by pat_completeness auto
termination
  by (relation "measure (\<lambda>(s, e, p, nodes, i). nat (nodes - i))") auto

declare init_pools.simps [simp del]

definition numalloc_init :: "alloc_state \<Rightarrow> os_env \<Rightarrow> size_t \<Rightarrow> (alloc_state \<times> int) option" where
  "numalloc_init s e pool_size_per_node =
     (if g_initialized s then Some (s, - 1)
      else case discover_numa_topology e of
        None \<Rightarrow> Some (s\<lparr>g_topology := None\<rparr>, - 1)
      | Some topo \<Rightarrow>
          init_pools (s\<lparr>g_topology := Some topo\<rparr>) e pool_size_per_node (num_nodes topo) 0)"

definition numalloc_calloc ::
  "alloc_state \<Rightarrow> os_env \<Rightarrow> tid \<Rightarrow> size_t \<Rightarrow> size_t \<Rightarrow> (alloc_state \<times> addr) option" where
  "numalloc_calloc s e t num sz =
     (if num = 0 \<or> sz = 0 then Some (s, NULL)
      else
        let total = num * sz in
        if sz \<noteq> total div num then Some (s, NULL)
        else do {
          (s1, ptr) \<leftarrow> numalloc s e t total;
          if ptr \<noteq> NULL then do {
            s2 \<leftarrow> memset s1 ptr 0 total;
            Some (s2, ptr)
          }
          else Some (s1, ptr)
        })"

definition numalloc_realloc ::
  "alloc_state \<Rightarrow> os_env \<Rightarrow> tid \<Rightarrow> addr \<Rightarrow> size_t \<Rightarrow> (alloc_state \<times> addr) option" where
  "numalloc_realloc s e t ptr sz =
     (if ptr = NULL then numalloc s e t sz
      else if sz = 0 then do {
        s1 \<leftarrow> numalloc_free s e t ptr;
        Some (s1, NULL)
      }
      else do {
        header \<leftarrow> read_header s (ptr - HEADER_SIZE);
        old_size \<leftarrow> (if hdr_size_class header \<ge> 0
                      then idx SIZE_CLASS_SIZES (hdr_size_class header)
                      else Some (hdr_size header));
        if sz \<le> old_size then Some (s, ptr)
        else do {
          (s1, new_ptr) \<leftarrow> numalloc s e t sz;
          if new_ptr \<noteq> NULL then do {
            s2 \<leftarrow> memcpy s1 new_ptr ptr old_size;
            s3 \<leftarrow> numalloc_free s2 e t ptr;
            Some (s3, new_ptr)
          }
          else Some (s1, new_ptr)
        }
      })"

definition numalloc_get_thread_stats :: "alloc_state \<Rightarrow> tid \<Rightarrow> size_t \<times> size_t" where
  "numalloc_get_thread_stats s t =
     (case my_arena s t of
        Some arena \<Rightarrow> (stats_allocs arena, stats_frees arena)
      | None \<Rightarrow> (0, 0))"

text \<open>The loop of \<open>numalloc_cleanup\<close> that releases the pools.\<close>

function cleanup_pools :: "alloc_state \<Rightarrow> int \<Rightarrow> int \<Rightarrow> alloc_state option" where
  "cleanup_pools s nodes i =
     (if i < nodes then
        (case idx (g_node_pools s) i of
           None \<Rightarrow> None
         | Some None \<Rightarrow> cleanup_pools s nodes (i + 1)
         | Some (Some pool) \<Rightarrow>
             (case (if base_addr pool \<noteq> NULL
                    then os_munmap s (base_addr pool) (total_size pool) else Some s) of
                None \<Rightarrow> None
              | Some s1 \<Rightarrow>
                  cleanup_pools (s1\<lparr>g_node_pools := (g_node_pools s1)[nat i := None]\<rparr>)
                    nodes (i + 1)))
      else Some s)"
  by pat_completeness auto
termination
  by (relation "measure (\<lambda>(s, nodes, i). nat (nodes - i))") auto

declare cleanup_pools.simps [simp del]

definition numalloc_cleanup :: "alloc_state \<Rightarrow> alloc_state option" where
  "numalloc_cleanup s =
     (if \<not> g_initialized s then Some s
      else case g_topology s of
        None \<Rightarrow> None
      | Some topo \<Rightarrow> do {
          s1 \<leftarrow> cleanup_pools s (num_nodes topo) 0;
          Some (s1\<lparr>g_topology := None, g_initialized := False\<rparr>)
        })"

text \<open>The state of the process before any call: the initial values of the globals.\<close>

definition start_state :: alloc_state where
  "start_state =
     \<lparr> g_topology = None, g_node_pools = replicate MAX_NUMA_NODES None,
       g_initialized = False, my_arena = (\<lambda>t. None), mem = (\<lambda>a. 0), mapped = [] \<rparr>"

section \<open>The linear arena\<close>

text \<open>
  The arena of \<open>arena_allocator.c\<close>.  The struct lives in the first
  \<open>ARENA_HEADER_SIZE\<close> bytes of the region it manages; pointers into the region are
  modelled by their offset from the start of the region.
\<close>

record arena_allocator_t =
  reserve_size :: size_t
  commit_size :: size_t
  position :: size_t
  commit_position :: size_t

definition ARENA_HEADER_SIZE :: size_t where
  "ARENA_HEADER_SIZE = 32"

definition DEFAULT_ALIGNMENT :: size_t where
  "DEFAULT_ALIGNMENT = 8"

definition align_up :: "size_t \<Rightarrow> size_t \<Rightarrow> size_t" where
  "align_up v alignment = (v + (alignment - 1)) AND NOT (alignment - 1)"

definition min_size :: "size_t \<Rightarrow> size_t \<Rightarrow> size_t" where
  "min_size a b = (if a < b then a else b)"

text \<open>
  The POSIX branch of the platform layer.  \<open>sysconf_pagesize\<close> is the answer of
  \<open>sysconf(_SC_PAGESIZE)\<close>; \<open>reserve_ok\<close> and \<open>commit_ok\<close> say whether the kernel
  grants the \<open>mmap\<close> and the \<open>mprotect\<close>.  \<open>mmap\<close> rejects a length of zero.
\<close>

definition platform_get_page_size :: "int \<Rightarrow> 32 word" where
  "platform_get_page_size sysconf_pagesize =
     (if sysconf_pagesize > 0 then word_of_int sysconf_pagesize else 4096)"

definition platform_reserve_memory :: "bool \<Rightarrow> size_t \<Rightarrow> bool" where
  "platform_reserve_memory reserve_ok sz = (reserve_ok \<and> sz \<noteq> 0)"

definition platform_commit_memory :: "bool \<Rightarrow> size_t \<Rightarrow> size_t \<Rightarrow> bool" where
  "platform_commit_memory commit_ok offset sz = commit_ok"

text \<open>
  \<open>arena_create\<close>; the result \<open>Some None\<close> is the null pointer.  The stores that
  fill in the struct go to the start of the region, so they are defined when the
  committed prefix holds the struct; the whole result is \<open>None\<close> when it does not.
\<close>

definition arena_create ::
  "int \<Rightarrow> bool \<Rightarrow> bool \<Rightarrow> size_t \<Rightarrow> size_t \<Rightarrow> arena_allocator_t option option" where
  "arena_create sysconf_pagesize reserve_ok commit_ok reserve_size0 commit_size0 =
     (if reserve_size0 = 0 \<or> commit_size0 = 0 then Some None
      else
        let page_size = platform_get_page_size sysconf_pagesize;
            reserve_size1 = align_up reserve_size0 (ucast page_size);
            commit_size1 = align_up commit_size0 (ucast page_size);
            commit_size2 = (if commit_size1 > reserve_size1 then reserve_size1 else commit_size1)
        in if \<not> platform_reserve_memory reserve_ok reserve_size1 then Some None
           else if \<not> platform_commit_memory commit_ok 0 commit_size2 then Some None
           else if commit_size2 < ARENA_HEADER_SIZE then None
           else Some (Some \<lparr> reserve_size = reserve_size1, commit_size = commit_size2,
                             position = ARENA_HEADER_SIZE, commit_position = commit_size2 \<rparr>))"

text \<open>
  The effect of zeroing the bytes \<open>[lo, hi)\<close> of the region on a field of the arena
  struct that lies at byte offset \<open>off\<close>.
\<close>

definition zero_bytes :: "nat \<Rightarrow> nat \<Rightarrow> nat \<Rightarrow> size_t \<Rightarrow> size_t" where
  "zero_bytes off lo hi v =
     fold (\<lambda>k w. if lo \<le> off + k \<and> off + k < hi then w AND NOT (push_bit (8 * k) 255) else w)
       [0..<8] v"

definition memset_arena :: "arena_allocator_t \<Rightarrow> nat \<Rightarrow> nat \<Rightarrow> arena_allocator_t" where
  "memset_arena a lo hi =
     \<lparr> reserve_size = zero_bytes 0 lo hi (reserve_size a),
       commit_size = zero_bytes 8 lo hi (commit_size a),
       position = zero_bytes 16 lo hi (position a),
       commit_position = zero_bytes 24 lo hi (commit_position a) \<rparr>"

text \<open>
  \<open>arena_alloc_aligned\<close>.  The first component of the result is the arena after the
  call (\<open>None\<close> for a null \<open>arena\<close> argument), the second the pointer returned, as an
  offset (\<open>None\<close> for null).  The final \<open>memset\<close> is defined when the slot lies in
  the committed part of the region; the whole result is \<open>None\<close> when it does not.
\<close>

definition arena_alloc_aligned ::
  "arena_allocator_t option \<Rightarrow> size_t \<Rightarrow> size_t \<Rightarrow> bool
     \<Rightarrow> (arena_allocator_t option \<times> size_t option) option" where
  "arena_alloc_aligned arena sz alignment commit_ok =
     (case arena of
        None \<Rightarrow> Some (None, None)
      | Some a \<Rightarrow>
          if sz = 0 then Some (Some a, None)
          else
            let aligned_position = align_up (position a) alignment;
                new_position = aligned_position + sz
            in if new_position > reserve_size a then Some (Some a, None)
               else
                 let new_commit_position =
                       min_size (align_up new_position (commit_size a)) (reserve_size a);
                     commit_amount = new_commit_position - commit_position a
                 in if new_position > commit_position a
                       \<and> \<not> platform_commit_memory commit_ok (commit_position a) commit_amount
                    then Some (Some a, None)
                    else
                      let a1 = (if new_position > commit_position a
                                then a\<lparr>commit_position := new_commit_position\<rparr> else a);
                          a2 = a1\<lparr>position := new_position\<rparr>
                      in if unat aligned_position + unat sz \<le> unat (commit_position a2)
                         then Some (Some (memset_arena a2 (unat aligned_position)
                                            (unat aligned_position + unat sz)),
                                    Some aligned_position)
                         else None)"

definition arena_alloc ::
  "arena_allocator_t option \<Rightarrow> size_t \<Rightarrow> bool
     \<Rightarrow> (arena_allocator_t option \<times> size_t option) option" where
  "arena_alloc arena sz commit_ok = arena_alloc_aligned arena sz DEFAULT_ALIGNMENT commit_ok"

definition arena_reset :: "arena_allocator_t option \<Rightarrow> arena_allocator_t option" where
  "arena_reset arena =
     (case arena of None \<Rightarrow> None | Some a \<Rightarrow> Some (a\<lparr>position := ARENA_HEADER_SIZE\<rparr>))"

definition arena_get_position :: "arena_allocator_t option \<Rightarrow> size_t" where
  "arena_get_position arena = (case arena of None \<Rightarrow> 0 | Some a \<Rightarrow> position a)"

definition arena_set_position ::
  "arena_allocator_t option \<Rightarrow> size_t \<Rightarrow> arena_allocator_t option" where
  "arena_set_position arena pos =
     (case arena of
        None \<Rightarrow> None
      | Some a \<Rightarrow>
          if pos \<ge> ARENA_HEADER_SIZE \<and> pos \<le> reserve_size a
          then Some (a\<lparr>position := pos\<rparr>) else Some a)"

text \<open>
  A sequence of calls on one arena.  Each allocation carries the kernel's answer to the
  commit it may need.
\<close>

datatype arena_op =
    Alloc size_t bool
  | AllocAligned size_t size_t bool
  | Reset
  | SetPosition size_t

fun arena_step :: "arena_allocator_t \<Rightarrow> arena_op \<Rightarrow> arena_allocator_t option" where
  "arena_step a (Alloc sz ok) =
     (case arena_alloc (Some a) sz ok of None \<Rightarrow> None | Some (a', r) \<Rightarrow> a')"
| "arena_step a (AllocAligned sz al ok) =
     (case arena_alloc_aligned (Some a) sz al ok of None \<Rightarrow> None | Some (a', r) \<Rightarrow> a')"
| "arena_step a Reset = arena_reset (Some a)"
| "arena_step a (SetPosition p) = arena_set_position (Some a) p"

fun arena_run :: "arena_allocator_t \<Rightarrow> arena_op list \<Rightarrow> arena_allocator_t option" where
  "arena_run a [] = Some a"
| "arena_run a (op # ops) =
     (case arena_step a op of None \<Rightarrow> None | Some a' \<Rightarrow> arena_run a' ops)"

section \<open>Concrete environments\<close>

text \<open>
  A machine without libnuma (one node, four CPUs), a machine with two nodes and one
  with nine, each with its pools at fixed addresses.
\<close>

definition env_one_node :: os_env where
  "env_one_node =
     \<lparr> numa_available = False, numa_max_node = 0, numa_num_configured_cpus = 4,
       sysconf_nprocessors = 4, numa_node_of_cpu = (\<lambda>cpu. 0),
       calloc_topology = True, calloc_cpu_map = True, calloc_pool = (\<lambda>node. True),
       pool_memory = (\<lambda>node. Some 268435456),
       calloc_arena = True, sched_getcpu = 0, mmap_hugetlb = None,
       mmap_anon = Some 1073741824 \<rparr>"


definition env_nine_nodes :: os_env where
  "env_nine_nodes =
     \<lparr> numa_available = True, numa_max_node = 8, numa_num_configured_cpus = 9,
       sysconf_nprocessors = 9, numa_node_of_cpu = (\<lambda>cpu. cpu),
       calloc_topology = True, calloc_cpu_map = True, calloc_pool = (\<lambda>node. True),
       pool_memory = (\<lambda>node. Some (word_of_int (268435456 * (node + 1)))),
       calloc_arena = True, sched_getcpu = 0, mmap_hugetlb = None,
       mmap_anon = Some 1073741824 \<rparr>"

section \<open>Vocabulary of the statements\<close>

text \<open>Two memories agree outside the addresses \<open>[lo, hi)\<close>.\<close>

definition same_outside :: "(addr \<Rightarrow> byte) \<Rightarrow> (addr \<Rightarrow> byte) \<Rightarrow> nat \<Rightarrow> nat \<Rightarrow> bool" where
  "same_outside m m' lo hi = (\<forall>x. unat x < lo \<or> hi \<le> unat x \<longrightarrow> m' x = m x)"

text \<open>The values of a C \<open>int\<close>.\<close>

definition int32 :: "int \<Rightarrow> bool" where
  "int32 i = (- (2 ^ 31) \<le> i \<and> i < 2 ^ 31)"

text \<open>
  The length that \<open>allocate_large_block\<close> passes to \<open>mmap\<close> for a request of
  \<open>sz\<close> bytes, and its two attempts to map that length.
\<close>

definition large_block_length :: "size_t \<Rightarrow> size_t" where
  "large_block_length sz =
     (let total_size = sz + HEADER_SIZE
      in if total_size \<ge> HUGE_PAGE_SIZE
         then (total_size + HUGE_PAGE_SIZE - 1) AND NOT (HUGE_PAGE_SIZE - 1)
         else total_size)"

definition large_block_mmap ::
  "alloc_state \<Rightarrow> os_env \<Rightarrow> size_t \<Rightarrow> (alloc_state \<times> addr) option" where
  "large_block_mmap s e len =
     (if len \<ge> HUGE_PAGE_SIZE
      then (case os_mmap s (mmap_hugetlb e) len of
              None \<Rightarrow> os_mmap s (mmap_anon e) len
            | Some r \<Rightarrow> Some r)
      else os_mmap s (mmap_anon e) len)"

text \<open>
  The one-node machine after \<open>numalloc_init\<close> with pools of 1 MiB, and the arena that
  \<open>create_arena\<close> makes on a node.
\<close>

definition state_one_node :: alloc_state where
  "state_one_node =
     \<lparr> g_topology = Some \<lparr> num_nodes = 1, num_cpus = 4, cpu_to_node_map = [0, 0, 0, 0] \<rparr>,
       g_node_pools = [Some \<lparr> node_id = 0, base_addr = 268435456, total_size = 1048576, used = 0 \<rparr>,
                       None, None, None, None, None, None, None],
       g_initialized = True, my_arena = (\<lambda>t. None),
       mem = memset_mem (\<lambda>a. 0) 268435456 0 1048576,
       mapped = [(268435456, 1048576)] \<rparr>"

definition arena_fresh :: "int \<Rightarrow> thread_arena_t" where
  "arena_fresh node = \<lparr> numa_node = node, free_lists = replicate SIZE_CLASSES NULL,
                         stats_allocs = 0, stats_frees = 0 \<rparr>"

text \<open>
  Vocabulary for the arena: an alignment that is a power of two, the calls that are
  \<open>set_position\<close>, requests that are not larger than the reserve, and the bounds that
  every arena keeps.
\<close>

definition power_of_two :: "size_t \<Rightarrow> bool" where
  "power_of_two w = (\<exists>k<64. w = 2 ^ k)"

fun alignment_ok :: "arena_op \<Rightarrow> bool" where
  "alignment_ok (AllocAligned sz al ok) = power_of_two al"
| "alignment_ok _ = True"

fun is_set_position :: "arena_op \<Rightarrow> bool" where
  "is_set_position (SetPosition p) = True"
| "is_set_position _ = False"

fun request_fits :: "arena_allocator_t \<Rightarrow> arena_op \<Rightarrow> bool" where
  "request_fits a (Alloc sz ok) = (sz \<le> reserve_size a)"
| "request_fits a (AllocAligned sz al ok) = (sz \<le> reserve_size a)"
| "request_fits a _ = True"

definition arena_wf :: "arena_allocator_t \<Rightarrow> bool" where
  "arena_wf a = (unat (reserve_size a) \<le> 2 ^ 62 \<and> 0 < unat (commit_size a)
     \<and> unat (commit_size a) \<le> unat (reserve_size a)
     \<and> 32 \<le> unat (position a) \<and> unat (position a) \<le> unat (reserve_size a)
     \<and> 32 \<le> unat (commit_position a) \<and> unat (commit_position a) \<le> unat (reserve_size a))"


text \<open>
  Vocabulary for the slow path: the user pointer of block \<open>k\<close> of a batch that starts
  at \<open>batch_start\<close>, the same for the batch that follows the used part of a pool, and
  the blocks of a list, walked through their \<open>next\<close> fields for at most \<open>n\<close> steps
  after the first block.
\<close>

fun chain_list :: "(addr \<Rightarrow> byte) \<Rightarrow> addr \<Rightarrow> nat \<Rightarrow> addr list option" where
  "chain_list m p 0 = (if p = NULL then Some [] else None)"
| "chain_list m p (Suc n) =
     (if p = NULL then Some [] else map_option ((#) p) (chain_list m (next_at m p) n))"

definition batch_block :: "addr \<Rightarrow> size_t \<Rightarrow> nat \<Rightarrow> addr" where
  "batch_block batch_start stride k = batch_start + of_nat k * stride + HEADER_SIZE"

definition pool_block :: "node_pool_t \<Rightarrow> size_t \<Rightarrow> nat \<Rightarrow> addr" where
  "pool_block pool block_size k =
     batch_block (base_addr pool + used pool) (block_size + HEADER_SIZE) k"

text \<open>
  The blocks on a free list: the head, when it is not null, and the blocks on the list
  that its \<open>next\<close> field names.
\<close>

inductive on_stack :: "(addr \<Rightarrow> byte) \<Rightarrow> addr \<Rightarrow> addr \<Rightarrow> bool"
  for m :: "addr \<Rightarrow> byte" where
  on_stack_head: "h \<noteq> NULL \<Longrightarrow> on_stack m h h"
| on_stack_next: "h \<noteq> NULL \<Longrightarrow> on_stack m (next_at m h) b \<Longrightarrow> on_stack m h b"

code_pred on_stack .




text \<open>
  What the allocator keeps between calls.  The pools are mapped, apart from each other
  and at most \<open>2 ^ 62\<close> bytes long.  \<open>G\<close> holds the small blocks carved so far, with
  their headers: each lies in the used part of a pool, apart from the others.  The
  blocks on the lists of every arena are in \<open>G\<close>, with the class of the list and, with
  \<open>own\<close>, the node of the arena.  A live pointer is a block of \<open>G\<close> or the block of a
  mapping of its own.
\<close>

definition pool_at :: "alloc_state \<Rightarrow> nat \<Rightarrow> node_pool_t \<Rightarrow> bool" where
  "pool_at s j pool = (j < MAX_NUMA_NODES \<and> g_node_pools s ! j = Some pool)"

definition region_disjoint :: "addr \<times> nat \<Rightarrow> addr \<times> nat \<Rightarrow> bool" where
  "region_disjoint r r' =
     (unat (fst r) + snd r \<le> unat (fst r') \<or> unat (fst r') + snd r' \<le> unat (fst r))"

definition pool_region :: "node_pool_t \<Rightarrow> addr \<times> nat" where
  "pool_region pool = (base_addr pool, page_round (unat (total_size pool)))"

definition pools_ok :: "alloc_state \<Rightarrow> bool" where
  "pools_ok s =
     (length (g_node_pools s) = MAX_NUMA_NODES
      \<and> (\<forall>j pool. pool_at s j pool \<longrightarrow>
            pool_region pool \<in> set (mapped s)
          \<and> unat (base_addr pool) + page_round (unat (total_size pool)) \<le> 2 ^ 64
          \<and> unat (used pool) \<le> unat (total_size pool)
          \<and> 0 < unat (total_size pool) \<and> unat (total_size pool) \<le> 2 ^ 62)
      \<and> (\<forall>j pool j' pool'. pool_at s j pool \<and> pool_at s j' pool' \<and> j \<noteq> j' \<longrightarrow>
            region_disjoint (pool_region pool) (pool_region pool')))"

definition block_ok :: "alloc_state \<Rightarrow> addr \<Rightarrow> block_header_t \<Rightarrow> bool" where
  "block_ok s p h =
     (header_at (mem s) (p - HEADER_SIZE) = h
      \<and> idx SIZE_CLASS_SIZES (hdr_size_class h) = Some (hdr_size h)
      \<and> (\<exists>j pool. pool_at s j pool
            \<and> unat (base_addr pool) + 16 \<le> unat p
            \<and> unat p + unat (hdr_size h) \<le> unat (base_addr pool) + unat (used pool)))"

definition blocks_ok :: "alloc_state \<Rightarrow> (addr \<rightharpoonup> block_header_t) \<Rightarrow> bool" where
  "blocks_ok s G =
     ((\<forall>p h. G p = Some h \<longrightarrow> block_ok s p h)
      \<and> (\<forall>p h q h'. G p = Some h \<and> G q = Some h' \<and> p \<noteq> q \<longrightarrow>
            unat p + unat (hdr_size h) + 16 \<le> unat q
          \<or> unat q + unat (hdr_size h') + 16 \<le> unat p))"

definition stack_ok ::
  "bool \<Rightarrow> (addr \<Rightarrow> byte) \<Rightarrow> (addr \<rightharpoonup> block_header_t) \<Rightarrow> addr \<Rightarrow> int \<Rightarrow> int \<Rightarrow> bool" where
  "stack_ok own m G head cls node =
     (\<forall>b. on_stack m head b \<longrightarrow>
        (\<exists>h. G b = Some h \<and> hdr_size_class h = cls \<and> (own \<longrightarrow> hdr_numa_node h = node)))"

definition arenas_ok :: "bool \<Rightarrow> alloc_state \<Rightarrow> (addr \<rightharpoonup> block_header_t) \<Rightarrow> bool" where
  "arenas_ok own s G =
     (\<forall>t arena. my_arena s t = Some arena \<longrightarrow>
        length (free_lists arena) = SIZE_CLASSES
      \<and> (\<forall>i<SIZE_CLASSES.
            stack_ok own (mem s) G (free_lists arena ! i) (int i) (numa_node arena)))"

definition large_live :: "alloc_state \<Rightarrow> addr \<Rightarrow> bool" where
  "large_live s p =
     (\<exists>a L. p = a + HEADER_SIZE \<and> (a, L) \<in> set (mapped s) \<and> 16 < L
        \<and> unat a + L \<le> 2 ^ 64
        \<and> hdr_size_class (header_at (mem s) a) < 0
        \<and> (\<forall>j pool. pool_at s j pool \<longrightarrow> region_disjoint (a, L) (pool_region pool)))"




section \<open>Size-class mapping\<close>

lemma get_size_class_unfold:
  "get_size_class sz =
     (if sz \<le> 16 then 0 else if sz \<le> 32 then 1 else if sz \<le> 64 then 2
      else if sz \<le> 128 then 3 else if sz \<le> 256 then 4 else if sz \<le> 512 then 5
      else if sz \<le> 1024 then 6 else if sz \<le> 2048 then 7 else - 1)"
proof -
  have step: "\<And>i. get_size_class_from i sz =
     (if i < 8 then (if sz \<le> SIZE_CLASS_SIZES ! i then int i
                     else get_size_class_from (Suc i) sz) else - 1)"
    by (subst get_size_class_from.simps) (simp add: SIZE_CLASSES_def)
  show ?thesis
    unfolding get_size_class_def
    apply (subst step, subst step, subst step, subst step, subst step)
    apply (subst step, subst step, subst step, subst step)
    apply (simp add: SIZE_CLASS_SIZES_def eval_nat_numeral)
    done
qed

lemma all_less_numeral:
  "(\<forall>j<numeral k. P j) \<longleftrightarrow> (P (pred_numeral k) \<and> (\<forall>j<pred_numeral k. P j))"
  by (simp add: numeral_eq_Suc All_less_Suc)

lemma size_class_fits:
  fixes n :: size_t
  assumes "1 \<le> n" and "n \<le> 2048"
  shows "\<exists>i<8. get_size_class n = int i \<and> n \<le> SIZE_CLASS_SIZES ! i
           \<and> (\<forall>j<i. SIZE_CLASS_SIZES ! j < n)"
proof -
  let ?P = "\<lambda>i. get_size_class n = int i \<and> n \<le> SIZE_CLASS_SIZES ! i
           \<and> (\<forall>j<i. SIZE_CLASS_SIZES ! j < n)"
  have u: "unat n \<le> 2048" using assms(2) by (simp add: word_le_nat_alt)
  consider "unat n \<le> 16" | "16 < unat n \<and> unat n \<le> 32" | "32 < unat n \<and> unat n \<le> 64"
    | "64 < unat n \<and> unat n \<le> 128" | "128 < unat n \<and> unat n \<le> 256"
    | "256 < unat n \<and> unat n \<le> 512" | "512 < unat n \<and> unat n \<le> 1024"
    | "1024 < unat n \<and> unat n \<le> 2048"
    using u by linarith
  then show ?thesis
  proof cases
    case 1
    then have "?P 0"
      by (simp add: get_size_class_unfold SIZE_CLASS_SIZES_def word_le_nat_alt)
    then show ?thesis by (intro exI[of _ 0]) simp
  next
    case 2
    then have "?P 1"
      by (simp add: get_size_class_unfold SIZE_CLASS_SIZES_def word_le_nat_alt word_less_nat_alt)
    then show ?thesis by (intro exI[of _ 1]) simp
  next
    case 3
    then have "?P 2"
      by (simp add: get_size_class_unfold SIZE_CLASS_SIZES_def word_le_nat_alt
          word_less_nat_alt all_less_numeral)
    then show ?thesis by (intro exI[of _ 2]) simp
  next
    case 4
    then have "?P 3"
      by (simp add: get_size_class_unfold SIZE_CLASS_SIZES_def word_le_nat_alt
          word_less_nat_alt all_less_numeral)
    then show ?thesis by (intro exI[of _ 3]) simp
  next
    case 5
    then have "?P 4"
      by (simp add: get_size_class_unfold SIZE_CLASS_SIZES_def word_le_nat_alt
          word_less_nat_alt all_less_numeral)
    then show ?thesis by (intro exI[of _ 4]) simp
  next
    case 6
    then have "?P 5"
      by (simp add: get_size_class_unfold SIZE_CLASS_SIZES_def word_le_nat_alt
          word_less_nat_alt all_less_numeral)
    then show ?thesis by (intro exI[of _ 5]) simp
  next
    case 7
    then have "?P 6"
      by (simp add: get_size_class_unfold SIZE_CLASS_SIZES_def word_le_nat_alt
          word_less_nat_alt all_less_numeral)
    then show ?thesis by (intro exI[of _ 6]) simp
  next
    case 8
    then have "?P 7"
      by (simp add: get_size_class_unfold SIZE_CLASS_SIZES_def word_le_nat_alt
          word_less_nat_alt all_less_numeral)
    then show ?thesis by (intro exI[of _ 7]) simp
  qed
qed

lemma size_class_exact: "\<forall>i<8. get_size_class (SIZE_CLASS_SIZES ! i) = int i"
  by (simp add: all_less_numeral get_size_class_unfold SIZE_CLASS_SIZES_def)

lemma size_class_next: "\<forall>i<7. get_size_class (SIZE_CLASS_SIZES ! i + 1) = int i + 1"
  by (simp add: all_less_numeral get_size_class_unfold SIZE_CLASS_SIZES_def)

lemma size_class_large: "2048 < n \<Longrightarrow> get_size_class n = - 1"
  by (simp add: get_size_class_unfold word_le_nat_alt word_less_nat_alt)

text \<open>
  C7: for a request of \<open>n\<close> bytes with \<open>1 \<le> n \<le> 2048\<close>, \<open>get_size_class\<close> returns the
  smallest index \<open>i\<close> whose class size is at least \<open>n\<close>; a request of exactly the size
  of class \<open>i\<close> gets class \<open>i\<close>, one byte more gets class \<open>i + 1\<close> (the sentinel
  \<open>-1\<close> after the last class), and every request above 2048 gets the sentinel.
\<close>

theorem C7_size_class_smallest_fit:
  fixes n :: size_t
  shows "(1 \<le> n \<and> n \<le> 2048 \<longrightarrow>
            (\<exists>i<8. get_size_class n = int i \<and> n \<le> SIZE_CLASS_SIZES ! i
                \<and> (\<forall>j<i. SIZE_CLASS_SIZES ! j < n)))
       \<and> (\<forall>i<8. get_size_class (SIZE_CLASS_SIZES ! i) = int i)
       \<and> (\<forall>i<7. get_size_class (SIZE_CLASS_SIZES ! i + 1) = int i + 1)
       \<and> get_size_class (SIZE_CLASS_SIZES ! 7 + 1) = - 1
       \<and> (2048 < n \<longrightarrow> get_size_class n = - 1)"
  using size_class_fits[of n] size_class_exact size_class_next size_class_large[of n]
  by (simp add: get_size_class_unfold SIZE_CLASS_SIZES_def)

theorem C7_size_class_witness:
  "(1 :: size_t) \<le> 100 \<and> (100 :: size_t) \<le> 2048
     \<and> (\<exists>i<8. get_size_class 100 = int i \<and> 100 \<le> SIZE_CLASS_SIZES ! i
           \<and> (\<forall>j<i. SIZE_CLASS_SIZES ! j < 100))
     \<and> get_size_class (SIZE_CLASS_SIZES ! 2) = 2
     \<and> get_size_class (SIZE_CLASS_SIZES ! 2 + 1) = 3
     \<and> (2048 :: size_t) < 5000 \<and> get_size_class 5000 = - 1"
  using C7_size_class_smallest_fit[of 100] C7_size_class_smallest_fit[of 5000]
  by simp

section \<open>Initialisation and the uninitialised allocator\<close>

lemma numalloc_uninitialised:
  "\<not> g_initialized s \<Longrightarrow> numalloc s e t n = Some (s, NULL)"
  by (simp add: numalloc_def)

lemma cleanup_uninitialised:
  "numalloc_cleanup s = Some s' \<Longrightarrow> \<not> g_initialized s'"
  by (auto simp: numalloc_cleanup_def split: if_splits option.splits bind_splits)

lemma page_round_ge: "n \<le> page_round n"
proof -
  have "(n + 4095) div 4096 * 4096 + (n + 4095) mod 4096 = n + 4095"
    by (rule div_mult_mod_eq)
  moreover have "(n + 4095) mod 4096 < 4096" by simp
  ultimately have "n \<le> (n + 4095) div 4096 * 4096" by linarith
  then show ?thesis by (simp add: page_round_def OS_PAGE_SIZE_def)
qed

lemma os_mmap_Some:
  assumes "os_mmap s proposal len = Some (s1, a)"
  shows "s1 = s\<lparr>mapped := (a, page_round (unat len)) # mapped s\<rparr>"
    and "unat a + page_round (unat len) \<le> 2 ^ 64" and "a \<noteq> NULL" and "len \<noteq> 0"
    and "region_free s a (page_round (unat len))" and "proposal = Some a"
  using assms by (auto simp: os_mmap_def split: option.splits if_splits)

lemma accessible_fresh:
  assumes "unat a + l \<le> 2 ^ 64" and "n \<le> l"
  shows "accessible (s\<lparr>mapped := (a, l) # mapped s\<rparr>) a n"
  using assms by (simp add: accessible_def in_range_def)

text \<open>Creating a pool never leaves the defined behaviour: its memory is zeroed inside
  the mapping that was just made.\<close>

lemma create_node_pool_defined: "create_node_pool s e i sz \<noteq> None"
proof (cases "calloc_pool e i")
  case False
  then show ?thesis by (simp add: create_node_pool_def)
next
  case True
  show ?thesis
  proof (cases "os_mmap s (pool_memory e i) sz")
    case None
    then show ?thesis using True by (simp add: create_node_pool_def)
  next
    case (Some r)
    obtain s1 a where r: "r = (s1, a)" by (cases r)
    note m = os_mmap_Some[OF Some[unfolded r]]
    have "accessible s1 a (unat sz)"
      unfolding m(1) using m(2) page_round_ge[of "unat sz"] by (intro accessible_fresh) simp_all
    then show ?thesis using True Some r
      by (simp add: create_node_pool_def memset_def)
  qed
qed

lemma create_node_pool_initialized:
  "create_node_pool s e i sz = Some (s1, pool) \<Longrightarrow> g_initialized s1 = g_initialized s"
  by (auto simp: create_node_pool_def memset_def os_mmap_def
      split: if_splits option.splits bind_splits prod.splits)

lemma create_node_pool_cases:
  obtains s1 pool where "create_node_pool s e i p = Some (s1, pool)"
    and "g_initialized s1 = g_initialized s"
proof -
  obtain s1 pool where c: "create_node_pool s e i p = Some (s1, pool)"
    using create_node_pool_defined[of s e i p] by (cases "create_node_pool s e i p") auto
  then show ?thesis using that create_node_pool_initialized[OF c] by blast
qed

lemma init_pools_done:
  "\<not> i < nodes \<Longrightarrow> init_pools s e p nodes i = Some (s\<lparr>g_initialized := True\<rparr>, 0)"
  by (subst init_pools.simps) simp

lemma init_pools_step:
  assumes "i < nodes" and "create_node_pool s e i p = Some (s1, pool)"
  shows "init_pools s e p nodes i =
     (if 0 \<le> i \<and> i < int MAX_NUMA_NODES
      then (if pool = None
            then Some (s1\<lparr>g_node_pools := (g_node_pools s1)[nat i := pool]\<rparr>, - 1)
            else init_pools (s1\<lparr>g_node_pools := (g_node_pools s1)[nat i := pool]\<rparr>)
                   e p nodes (i + 1))
      else None)"
  using assms by (subst init_pools.simps) (simp add: Let_def)

lemma init_pools_defined:
  "0 \<le> i \<Longrightarrow> nodes \<le> int MAX_NUMA_NODES \<Longrightarrow> init_pools s e p nodes i \<noteq> None"
proof (induction "nat (nodes - i)" arbitrary: s i)
  case 0
  then show ?case by (simp add: init_pools_done)
next
  case (Suc k)
  then have lt: "i < nodes" by linarith
  obtain s1 pool where c: "create_node_pool s e i p = Some (s1, pool)"
    by (rule create_node_pool_cases)
  have "init_pools (s1\<lparr>g_node_pools := (g_node_pools s1)[nat i := pool]\<rparr>) e p nodes (i + 1)
          \<noteq> None"
    using Suc.prems Suc.hyps(2) by (intro Suc.hyps(1)) linarith+
  then show ?case using Suc.prems lt by (simp add: init_pools_step[OF lt c])
qed

lemma init_pools_failure_keeps_flag:
  "init_pools s e p nodes i = Some (s', r) \<Longrightarrow> r \<noteq> 0 \<Longrightarrow> g_initialized s' = g_initialized s"
proof (induction "nat (nodes - i)" arbitrary: s i)
  case 0
  then show ?case by (simp add: init_pools_done)
next
  case (Suc k)
  then have lt: "i < nodes" by linarith
  obtain s1 pool where c: "create_node_pool s e i p = Some (s1, pool)"
    and g: "g_initialized s1 = g_initialized s"
    by (rule create_node_pool_cases)
  let ?s2 = "s1\<lparr>g_node_pools := (g_node_pools s1)[nat i := pool]\<rparr>"
  show ?case
  proof (cases "pool = None")
    case True
    then show ?thesis using Suc.prems g
      by (auto simp: init_pools_step[OF lt c] split: if_splits)
  next
    case False
    then have r: "init_pools ?s2 e p nodes (i + 1) = Some (s', r)"
      using Suc.prems by (simp add: init_pools_step[OF lt c] split: if_splits)
    have "k = nat (nodes - (i + 1))" using Suc.hyps(2) by linarith
    from Suc.hyps(1)[OF this r Suc.prems(2)] show ?thesis using g by simp
  qed
qed

lemma init_pools_too_many:
  "init_pools s e p nodes i = Some (s', r) \<Longrightarrow> int MAX_NUMA_NODES < nodes \<Longrightarrow> 0 \<le> i
     \<Longrightarrow> i \<le> int MAX_NUMA_NODES \<Longrightarrow> r = - 1"
proof (induction "nat (nodes - i)" arbitrary: s i)
  case 0
  then show ?case by simp
next
  case (Suc k)
  then have lt: "i < nodes" by linarith
  obtain s1 pool where c: "create_node_pool s e i p = Some (s1, pool)"
    by (rule create_node_pool_cases)
  let ?s2 = "s1\<lparr>g_node_pools := (g_node_pools s1)[nat i := pool]\<rparr>"
  show ?case
  proof (cases "pool = None")
    case True
    then show ?thesis using Suc.prems
      by (simp add: init_pools_step[OF lt c] split: if_splits)
  next
    case False
    then have r: "init_pools ?s2 e p nodes (i + 1) = Some (s', r)"
      and inb: "i < int MAX_NUMA_NODES"
      using Suc.prems by (simp_all add: init_pools_step[OF lt c] split: if_splits)
    have "k = nat (nodes - (i + 1))" using Suc.hyps(2) by linarith
    from Suc.hyps(1)[OF this r Suc.prems(2)] show ?thesis using inb Suc.prems by simp
  qed
qed

lemma init_nine_nodes: "numalloc_init start_state env_nine_nodes 1048576 = None"
  apply (simp add: numalloc_init_def start_state_def env_nine_nodes_def discover_numa_topology_def)
  apply (simp add: init_pools.simps create_node_pool_def os_mmap_def region_free_def
        page_round_def OS_PAGE_SIZE_def NULL_def memset_def accessible_def in_range_def
        MAX_NUMA_NODES_def)
  done

text \<open>
  C9: \<open>numalloc_init\<close> stores into \<open>g_node_pools[i]\<close> for the nodes \<open>i\<close> of the discovered
  topology and never compares their number with \<open>MAX_NUMA_NODES\<close>.  When the topology
  has at most eight nodes every store is inside the table, so the call stays in defined
  behaviour (the only other operation of the call that touches memory, zeroing a new
  pool, is always defined).  With more than eight nodes the call cannot succeed: it
  either fails before the ninth pool or stores outside the table, as it does on the
  nine-node machine \<open>env_nine_nodes\<close>.
\<close>

theorem C9_init_table_bounds:
  "((\<forall>topo. discover_numa_topology e = Some topo \<longrightarrow> num_nodes topo \<le> int MAX_NUMA_NODES)
       \<longrightarrow> numalloc_init s e p \<noteq> None)
   \<and> (discover_numa_topology e = Some topo \<and> int MAX_NUMA_NODES < num_nodes topo
        \<and> \<not> g_initialized s \<and> numalloc_init s e p = Some (s', r) \<longrightarrow> r = - 1)
   \<and> numalloc_init start_state env_nine_nodes 1048576 = None"
proof (intro conjI impI)
  assume "\<forall>topo. discover_numa_topology e = Some topo \<longrightarrow> num_nodes topo \<le> int MAX_NUMA_NODES"
  then show "numalloc_init s e p \<noteq> None"
    using init_pools_defined[of 0 _ _ e p]
    by (auto simp: numalloc_init_def split: option.splits)
next
  assume "discover_numa_topology e = Some topo \<and> int MAX_NUMA_NODES < num_nodes topo
        \<and> \<not> g_initialized s \<and> numalloc_init s e p = Some (s', r)"
  then have d: "discover_numa_topology e = Some topo" and m: "int MAX_NUMA_NODES < num_nodes topo"
    and i: "\<not> g_initialized s" and r: "numalloc_init s e p = Some (s', r)"
    by simp_all
  from r have "init_pools (s\<lparr>g_topology := Some topo\<rparr>) e p (num_nodes topo) 0 = Some (s', r)"
    using d i by (simp add: numalloc_init_def)
  from init_pools_too_many[OF this m] show "r = - 1" by simp
next
  show "numalloc_init start_state env_nine_nodes 1048576 = None"
    by (rule init_nine_nodes)
qed

theorem C9_init_table_bounds_witness:
  "discover_numa_topology env_one_node
       = Some \<lparr> num_nodes = 1, num_cpus = 4, cpu_to_node_map = [0, 0, 0, 0] \<rparr>
     \<and> (1 :: int) \<le> int MAX_NUMA_NODES
     \<and> numalloc_init start_state env_one_node 1048576 \<noteq> None
     \<and> numalloc_init start_state env_nine_nodes 1048576 = None"
  using C9_init_table_bounds[of env_one_node start_state 1048576]
  by (simp add: discover_numa_topology_def env_one_node_def MAX_NUMA_NODES_def
      eval_nat_numeral)

text \<open>
  C10: \<open>numalloc\<close> called while the allocator is not initialised -- before any
  \<open>numalloc_init\<close>, after a \<open>numalloc_init\<close> that failed, or after
  \<open>numalloc_cleanup\<close> -- returns the null pointer and leaves the whole state as it
  was; it is a normal return, not undefined behaviour.
\<close>

theorem C10_uninitialised_alloc_returns_null:
  "(\<not> g_initialized s \<longrightarrow> numalloc s e t n = Some (s, NULL))
   \<and> numalloc start_state e t n = Some (start_state, NULL)
   \<and> (numalloc_cleanup s = Some s' \<longrightarrow> numalloc s' e t n = Some (s', NULL))
   \<and> (\<not> g_initialized s \<and> numalloc_init s e0 p = Some (s', r) \<and> r \<noteq> 0
        \<longrightarrow> numalloc s' e t n = Some (s', NULL))"
proof (intro conjI impI)
  show "numalloc start_state e t n = Some (start_state, NULL)"
    by (rule numalloc_uninitialised) (simp add: start_state_def)
next
  assume "\<not> g_initialized s \<and> numalloc_init s e0 p = Some (s', r) \<and> r \<noteq> 0"
  then have i: "\<not> g_initialized s" and r: "numalloc_init s e0 p = Some (s', r)" and nz: "r \<noteq> 0"
    by simp_all
  have "\<not> g_initialized s'"
  proof (cases "discover_numa_topology e0")
    case None
    then show ?thesis using i r by (auto simp: numalloc_init_def)
  next
    case (Some topo)
    then have "init_pools (s\<lparr>g_topology := Some topo\<rparr>) e0 p (num_nodes topo) 0 = Some (s', r)"
      using i r by (simp add: numalloc_init_def)
    from init_pools_failure_keeps_flag[OF this nz] show ?thesis using i by simp
  qed
  then show "numalloc s' e t n = Some (s', NULL)" by (rule numalloc_uninitialised)
qed (simp_all add: numalloc_uninitialised cleanup_uninitialised)

theorem C10_uninitialised_alloc_witness:
  "\<not> g_initialized start_state
     \<and> numalloc start_state env_one_node 0 64 = Some (start_state, NULL)
     \<and> numalloc_cleanup start_state = Some start_state"
  using C10_uninitialised_alloc_returns_null[of start_state env_one_node 0 64]
  by (simp add: start_state_def numalloc_cleanup_def)

section \<open>Memory\<close>

lemma length_le_bytes [simp]: "length (le_bytes n w) = n"
  by (simp add: le_bytes_def)

lemma length_load_bytes [simp]: "length (load_bytes m a n) = n"
  by (simp add: load_bytes_def)

lemma length_header_bytes [simp]: "length (header_bytes h) = 16"
  by (simp add: header_bytes_def)

lemma le_word_le_bytes:
  fixes w :: "'a::len word"
  assumes "LENGTH('a) \<le> 8 * n"
  shows "le_word (le_bytes n w) = w"
proof (rule bit_word_eqI)
  fix k assume k: "k < LENGTH('a)"
  then have "k div 8 < n" using assms by (simp add: less_mult_imp_div_less mult.commute)
  then show "bit (le_word (le_bytes n w) :: 'a word) k = bit w k"
    using k
    by (simp add: le_word_def bit_word_of_int_iff le_bytes_def
        bit_horner_sum_uint_exp_iff[where 'a=8, simplified] bit_ucast_iff bit_drop_bit_eq)
qed

lemma unat_of_nat64: "i < 2 ^ 64 \<Longrightarrow> unat (of_nat i :: 64 word) = i"
  by (simp add: unat_of_nat)

lemma unat_plus_of_nat:
  fixes a :: addr
  assumes "unat a + i < 2 ^ 64"
  shows "unat (a + of_nat i) = unat a + i"
proof -
  have "unat (of_nat i :: 64 word) = i" using assms by (intro unat_of_nat64) simp
  then show ?thesis using assms by (simp add: unat_word_ariths)
qed

lemma outside_range:
  fixes a x :: addr
  assumes "unat a + n \<le> 2 ^ 64" and "unat x < unat a \<or> unat a + n \<le> unat x"
  shows "\<not> unat (x - a) < n"
proof -
  have "unat x < 2 ^ 64" using unsigned_less[of x, where 'a=nat] by simp
  then show ?thesis using assms
    by (auto simp: unat_sub_if_size word_size split: if_splits)
qed

lemma load_store_bytes:
  assumes "off + n \<le> length bs" and "length bs < 2 ^ 64"
  shows "load_bytes (store_bytes m a bs) (a + of_nat off) n = take n (drop off bs)"
proof (rule nth_equalityI)
  show "length (load_bytes (store_bytes m a bs) (a + of_nat off) n) = length (take n (drop off bs))"
    using assms by simp
next
  fix i assume "i < length (load_bytes (store_bytes m a bs) (a + of_nat off) n)"
  then have i: "i < n" by simp
  have "a + of_nat off + of_nat i - a = of_nat (off + i)" by simp
  moreover have "unat (of_nat (off + i) :: 64 word) = off + i"
    using assms i by (intro unat_of_nat64) simp
  ultimately show "load_bytes (store_bytes m a bs) (a + of_nat off) n ! i = take n (drop off bs) ! i"
    using i assms by (simp add: load_bytes_def store_bytes_def add.commute)
qed

lemma store_bytes_outside:
  assumes "unat a + length bs \<le> 2 ^ 64"
  shows "same_outside m (store_bytes m a bs) (unat a) (unat a + length bs)"
  unfolding same_outside_def
  using outside_range[OF assms] by (simp add: store_bytes_def)


lemma memcpy_mem_outside:
  assumes "unat p + unat n \<le> 2 ^ 64"
  shows "same_outside m (memcpy_mem m p q n) (unat p) (unat p + unat n)"
  unfolding same_outside_def
  using outside_range[OF assms] by (simp add: memcpy_mem_def word_less_nat_alt)

lemma load_bytes_cong:
  assumes "unat b + n \<le> 2 ^ 64"
    and "\<And>x. unat b \<le> unat x \<Longrightarrow> unat x < unat b + n \<Longrightarrow> m' x = m x"
  shows "load_bytes m' b n = load_bytes m b n"
  unfolding load_bytes_def
proof (rule map_cong[OF refl])
  fix i assume "i \<in> set [0..<n]"
  then have i: "i < n" by simp
  then have "unat (b + of_nat i) = unat b + i"
    using assms(1) by (intro unat_plus_of_nat) simp
  then show "m' (b + of_nat i) = m (b + of_nat i)"
    using i by (intro assms(2)) simp_all
qed

lemma load_bytes_same_outside:
  assumes "same_outside m m' lo hi" and "unat b + n \<le> 2 ^ 64"
    and "unat b + n \<le> lo \<or> hi \<le> unat b"
  shows "load_bytes m' b n = load_bytes m b n"
  using assms by (intro load_bytes_cong) (auto simp: same_outside_def)

lemma sint_word_of_int_32:
  assumes "- (2 ^ 31) \<le> i" and "i < 2 ^ 31"
  shows "sint (word_of_int i :: 32 word) = i"
  using assms by (simp add: sint_sbintrunc' signed_take_bit_int_eq_self)

lemma header_at_store:
  assumes "int32 (hdr_size_class h)" and "int32 (hdr_numa_node h)"
  shows "header_at (store_bytes m a (header_bytes h)) a = h"
proof -
  let ?bs = "header_bytes h"
  have l: "length ?bs < 2 ^ 64" by simp
  have 1: "load_bytes (store_bytes m a ?bs) a 8 = le_bytes 8 (hdr_size h)"
    using load_store_bytes[of 0 8 ?bs m a] by (simp add: header_bytes_def)
  have 2: "load_bytes (store_bytes m a ?bs) (a + 8) 4
             = le_bytes 4 (word_of_int (hdr_size_class h) :: 32 word)"
    using load_store_bytes[of 8 4 ?bs m a] by (simp add: header_bytes_def)
  have 3: "load_bytes (store_bytes m a ?bs) (a + 12) 4
             = le_bytes 4 (word_of_int (hdr_numa_node h) :: 32 word)"
    using load_store_bytes[of 12 4 ?bs m a] by (simp add: header_bytes_def)
  show ?thesis
    using assms
    by (simp add: header_at_def 1 2 3 le_word_le_bytes sint_word_of_int_32 int32_def)
qed

lemma next_at_store: "next_at (store_bytes m a (le_bytes 8 v)) a = v"
  using load_store_bytes[of 0 8 "le_bytes 8 v" m a]
  by (simp add: next_at_def le_word_le_bytes)

lemma header_at_same_outside:
  assumes "same_outside m m' lo hi" and "unat a + 16 \<le> 2 ^ 64"
    and "unat a + 16 \<le> lo \<or> hi \<le> unat a"
  shows "header_at m' a = header_at m a"
proof -
  have a8: "unat (a + 8) = unat a + 8" using unat_plus_of_nat[of a 8] assms(2) by simp
  have a12: "unat (a + 12) = unat a + 12" using unat_plus_of_nat[of a 12] assms(2) by simp
  have "load_bytes m' a 8 = load_bytes m a 8"
    using assms by (intro load_bytes_same_outside[OF assms(1)]) auto
  moreover have "load_bytes m' (a + 8) 4 = load_bytes m (a + 8) 4"
    using assms a8 by (intro load_bytes_same_outside[OF assms(1)]) auto
  moreover have "load_bytes m' (a + 12) 4 = load_bytes m (a + 12) 4"
    using assms a12 by (intro load_bytes_same_outside[OF assms(1)]) auto
  ultimately show ?thesis by (simp add: header_at_def)
qed

lemma next_at_same_outside:
  assumes "same_outside m m' lo hi" and "unat a + 8 \<le> 2 ^ 64"
    and "unat a + 8 \<le> lo \<or> hi \<le> unat a"
  shows "next_at m' a = next_at m a"
  using load_bytes_same_outside[OF assms] by (simp add: next_at_def)

section \<open>Bounds of the linear arena\<close>

lemma and_not_eq_diff:
  fixes x m :: "'a::len word"
  shows "x AND NOT m = x - (x AND m)"
proof -
  have "x - (x AND m) = x AND NOT (x AND m)"
    by (rule disjunctive_diff_eq_and_not) (auto simp: bit_eq_iff bit_simps)
  also have "\<dots> = x AND NOT m" by (auto simp: bit_eq_iff bit_simps)
  finally show ?thesis by simp
qed

lemma unat_and_not_ge:
  fixes x m :: "64 word"
  shows "unat x - unat m \<le> unat (x AND NOT m)"
proof -
  have "x AND m \<le> x" by (rule word_and_le2)
  then have "unat (x - (x AND m)) = unat x - unat (x AND m)" by (rule unat_sub)
  moreover have "unat (x AND m) \<le> unat m" using word_and_le1[of x m] by (simp add: word_le_nat_alt)
  ultimately show ?thesis by (simp add: and_not_eq_diff)
qed

lemma unat_and_not_le:
  fixes x m :: "64 word"
  shows "unat (x AND NOT m) \<le> unat x"
  using word_and_le2[of x "NOT m"] by (simp add: word_le_nat_alt)

text \<open>\<open>align_up\<close> does not go below its argument when the addition does not wrap.\<close>

lemma align_up_bounds:
  assumes "0 < unat al" and "unat v + unat al \<le> 2 ^ 64"
  shows "unat v \<le> unat (align_up v al)" and "unat (align_up v al) < unat v + unat al"
proof -
  have al1: "unat (al - 1) = unat al - 1"
    using assms(1) by (simp add: unat_sub word_le_nat_alt Suc_le_eq)
  have "unat v + unat (al - 1) < 2 ^ 64" using assms al1 by linarith
  then have s: "unat (v + (al - 1)) = unat v + unat (al - 1)"
    by (simp add: unat_add_lem[THEN iffD1])
  show "unat v \<le> unat (align_up v al)"
    using unat_and_not_ge[of "v + (al - 1)" "al - 1"] s by (simp add: align_up_def)
  show "unat (align_up v al) < unat v + unat al"
    using unat_and_not_le[of "v + (al - 1)" "al - 1"] s al1 assms(1) by (simp add: align_up_def)
qed

lemma fold_skip:
  "\<forall>k\<in>set ks. \<not> P k \<Longrightarrow> fold (\<lambda>k w. if P k then f k w else w) ks v = v"
  by (induction ks arbitrary: v) auto

lemma zero_bytes_above:
  assumes "off + 8 \<le> lo"
  shows "zero_bytes off lo hi v = v"
  unfolding zero_bytes_def
  by (rule fold_skip) (use assms in auto)

lemma memset_arena_above: "32 \<le> lo \<Longrightarrow> memset_arena a lo hi = a"
  by (simp add: memset_arena_def zero_bytes_above)

lemma unat_power_of_two:
  assumes "power_of_two al"
  shows "0 < unat al" and "unat al \<le> 2 ^ 63"
proof -
  from assms obtain k where k: "k < 64" "al = 2 ^ k" by (auto simp: power_of_two_def)
  have "(2::nat) ^ k < 2 ^ 64" using k(1) by (intro power_strict_increasing) simp_all
  then have "unat (of_nat (2 ^ k) :: 64 word) = 2 ^ k" by (rule unat_of_nat64)
  then have u: "unat al = 2 ^ k" using k(2) by simp
  show "0 < unat al" using u by simp
  have "(2::nat) ^ k \<le> 2 ^ 63" using k(1) by (intro power_increasing) simp_all
  then show "unat al \<le> 2 ^ 63" using u by simp
qed

lemma min_size_unat: "unat (min_size a b) = min (unat a) (unat b)"
  by (simp add: min_size_def word_less_nat_alt min_def)

text \<open>One call of \<open>arena_alloc_aligned\<close> on a well-formed arena.\<close>

lemma arena_alloc_aligned_wf:
  assumes wf: "arena_wf a" and al: "power_of_two al"
    and r: "arena_alloc_aligned (Some a) sz al ok = Some (a', res)"
  obtains a2 where "a' = Some a2" and "arena_wf a2"
    and "reserve_size a2 = reserve_size a" and "commit_size a2 = commit_size a"
    and "a2 = a \<or> unat (position a2) \<le> unat (commit_position a2)"
proof (cases "sz = 0 \<or> align_up (position a) al + sz > reserve_size a
     \<or> (align_up (position a) al + sz > commit_position a
          \<and> \<not> platform_commit_memory ok (commit_position a)
                 (min_size (align_up (align_up (position a) al + sz) (commit_size a)) (reserve_size a)
                    - commit_position a))")
  case True
  then have "a' = Some a" using r by (auto simp: arena_alloc_aligned_def Let_def split: if_splits)
  then show ?thesis using wf by (intro that[of a]) simp_all
next
  case False
  let ?al = "align_up (position a) al"
  let ?np = "?al + sz"
  let ?nc = "min_size (align_up ?np (commit_size a)) (reserve_size a)"
  let ?a1 = "if ?np > commit_position a then a\<lparr>commit_position := ?nc\<rparr> else a"
  let ?a2 = "?a1\<lparr>position := ?np\<rparr>"
  from False r have chk: "unat ?al + unat sz \<le> unat (commit_position ?a2)"
    and a': "a' = Some (memset_arena ?a2 (unat ?al) (unat ?al + unat sz))"
    by (auto simp: arena_alloc_aligned_def Let_def split: if_splits)
  note p2 = unat_power_of_two[OF al]
  have "unat (position a) + unat al \<le> 2 ^ 64"
    using wf p2 by (simp add: arena_wf_def)
  note b = align_up_bounds[OF p2(1) this]
  have lo: "32 \<le> unat ?al" using wf b(1) by (simp add: arena_wf_def)
  have cp: "unat (commit_position ?a2) < 2 ^ 64"
    using unsigned_less[of "commit_position ?a2", where 'a=nat] by simp
  have np: "unat ?np = unat ?al + unat sz"
    using chk cp by (intro unat_add_lem[THEN iffD1]) simp
  have le: "unat ?np \<le> unat (reserve_size a)"
    using False by (simp add: word_less_nat_alt not_less)
  have nc: "unat ?nc \<le> unat (reserve_size a)" by (simp add: min_size_unat)
  have wf2: "arena_wf ?a2"
    using wf lo np le nc chk by (auto simp: arena_wf_def)
  show ?thesis
  proof (rule that[of ?a2])
    show "a' = Some ?a2" using a' lo by (simp add: memset_arena_above)
    show "arena_wf ?a2" by fact
    show "reserve_size ?a2 = reserve_size a" by simp
    show "commit_size ?a2 = commit_size a" by simp
    show "?a2 = a \<or> unat (position ?a2) \<le> unat (commit_position ?a2)"
      using chk np by simp
  qed
qed

lemma arena_alloc_aligned_defined:
  assumes wf: "arena_wf a" and al: "power_of_two al" and fit: "sz \<le> reserve_size a"
  shows "arena_alloc_aligned (Some a) sz al ok \<noteq> None"
proof (cases "sz = 0 \<or> align_up (position a) al + sz > reserve_size a
     \<or> (align_up (position a) al + sz > commit_position a
          \<and> \<not> platform_commit_memory ok (commit_position a)
                 (min_size (align_up (align_up (position a) al + sz) (commit_size a)) (reserve_size a)
                    - commit_position a))")
  case True
  then show ?thesis by (auto simp: arena_alloc_aligned_def Let_def)
next
  case False
  let ?al = "align_up (position a) al"
  let ?np = "?al + sz"
  let ?nc = "min_size (align_up ?np (commit_size a)) (reserve_size a)"
  note p2 = unat_power_of_two[OF al]
  have "unat (position a) + unat al \<le> 2 ^ 64"
    using wf p2 by (simp add: arena_wf_def)
  note b = align_up_bounds[OF p2(1) this]
  have "unat sz \<le> 2 ^ 62" using fit wf by (simp add: word_le_nat_alt arena_wf_def)
  moreover have "unat ?al < 2 ^ 62 + 2 ^ 63" using b(2) wf p2(2) by (simp add: arena_wf_def)
  ultimately have "unat ?al + unat sz < 2 ^ 64" by simp
  then have np: "unat ?np = unat ?al + unat sz"
    by (intro unat_add_lem[THEN iffD1]) simp
  have le: "unat ?np \<le> unat (reserve_size a)"
    using False by (simp add: word_less_nat_alt not_less)
  have "unat ?np + unat (commit_size a) \<le> 2 ^ 64"
    using le wf by (simp add: arena_wf_def)
  then have "unat ?np \<le> unat (align_up ?np (commit_size a))"
    using wf by (intro align_up_bounds(1)) (simp_all add: arena_wf_def)
  then have nc: "unat ?np \<le> unat ?nc" using le by (simp add: min_size_unat)
  have "unat ?al + unat sz \<le> unat (commit_position
           ((if ?np > commit_position a then a\<lparr>commit_position := ?nc\<rparr> else a)\<lparr>position := ?np\<rparr>))"
    using nc np by (auto simp: word_less_nat_alt not_less)
  then show ?thesis using False
    by (simp add: arena_alloc_aligned_def Let_def)
qed

lemma power_of_two_default: "power_of_two DEFAULT_ALIGNMENT"
  unfolding power_of_two_def DEFAULT_ALIGNMENT_def by (rule exI[of _ 3]) simp

lemma arena_step_wf:
  assumes wf: "arena_wf a" and al: "alignment_ok op" and st: "arena_step a op = Some a'"
  shows "arena_wf a'" and "reserve_size a' = reserve_size a"
    and "\<not> is_set_position op \<Longrightarrow> unat (position a) \<le> unat (commit_position a)
           \<Longrightarrow> unat (position a') \<le> unat (commit_position a')"
proof -
  have "arena_wf a' \<and> reserve_size a' = reserve_size a
      \<and> (\<not> is_set_position op \<longrightarrow> unat (position a) \<le> unat (commit_position a)
           \<longrightarrow> unat (position a') \<le> unat (commit_position a'))"
  proof (cases op)
    case (Alloc sz ok)
    then obtain res where r: "arena_alloc_aligned (Some a) sz DEFAULT_ALIGNMENT ok = Some (Some a', res)"
      using st by (auto simp: arena_alloc_def split: option.splits)
    from arena_alloc_aligned_wf[OF wf power_of_two_default r] show ?thesis by auto
  next
    case (AllocAligned sz al' ok)
    then have p: "power_of_two al'" using al by simp
    from AllocAligned obtain res where r: "arena_alloc_aligned (Some a) sz al' ok = Some (Some a', res)"
      using st by (auto split: option.splits)
    from arena_alloc_aligned_wf[OF wf p r] show ?thesis by auto
  next
    case Reset
    then have "a' = a\<lparr>position := ARENA_HEADER_SIZE\<rparr>" using st by (simp add: arena_reset_def)
    then show ?thesis using wf by (simp add: arena_wf_def ARENA_HEADER_SIZE_def)
  next
    case (SetPosition p)
    then have "a' = (if p \<ge> ARENA_HEADER_SIZE \<and> p \<le> reserve_size a then a\<lparr>position := p\<rparr> else a)"
      using st by (auto simp: arena_set_position_def split: if_splits)
    then show ?thesis using wf SetPosition
      by (auto simp: arena_wf_def ARENA_HEADER_SIZE_def word_le_nat_alt)
  qed
  then show "arena_wf a'" and "reserve_size a' = reserve_size a"
    and "\<not> is_set_position op \<Longrightarrow> unat (position a) \<le> unat (commit_position a)
           \<Longrightarrow> unat (position a') \<le> unat (commit_position a')"
    by simp_all
qed

lemma arena_step_defined:
  assumes wf: "arena_wf a" and al: "alignment_ok op" and fit: "request_fits a op"
  shows "arena_step a op \<noteq> None"
proof (cases op)
  case (Alloc sz ok)
  then show ?thesis
    using arena_alloc_aligned_defined[OF wf power_of_two_default, of sz ok] fit
    by (auto simp: arena_alloc_def split: option.splits)
       (auto simp: arena_alloc_aligned_def Let_def split: if_splits)
next
  case (AllocAligned sz al' ok)
  then show ?thesis
    using arena_alloc_aligned_defined[OF wf, of al' sz ok] fit al
    by (auto split: option.splits)
       (auto simp: arena_alloc_aligned_def Let_def split: if_splits)
next
  case Reset
  then show ?thesis by (simp add: arena_reset_def)
next
  case (SetPosition p)
  then show ?thesis by (simp add: arena_set_position_def)
qed

lemma request_fits_reserve:
  "reserve_size a' = reserve_size a \<Longrightarrow> request_fits a' op = request_fits a op"
  by (cases op) simp_all

lemma arena_run_wf:
  assumes "arena_wf a0" and "\<forall>op\<in>set ops. alignment_ok op" and "arena_run a0 ops = Some a"
  shows "arena_wf a \<and> reserve_size a = reserve_size a0
      \<and> ((\<forall>op\<in>set ops. \<not> is_set_position op) \<longrightarrow> unat (position a0) \<le> unat (commit_position a0)
           \<longrightarrow> unat (position a) \<le> unat (commit_position a))"
  using assms
proof (induction ops arbitrary: a0)
  case Nil
  then show ?case by simp
next
  case (Cons op ops)
  from Cons.prems(3) obtain a1 where s: "arena_step a0 op = Some a1" and r: "arena_run a1 ops = Some a"
    by (auto split: option.splits)
  have al: "alignment_ok op" using Cons.prems(2) by simp
  note w = arena_step_wf[OF Cons.prems(1) al s]
  from Cons.IH[OF w(1) _ r] Cons.prems(2) w(2,3) show ?case by auto
qed

lemma arena_run_defined:
  assumes "arena_wf a0" and "\<forall>op\<in>set ops. alignment_ok op" and "\<forall>op\<in>set ops. request_fits a0 op"
  shows "arena_run a0 ops \<noteq> None"
  using assms
proof (induction ops arbitrary: a0)
  case Nil
  then show ?case by simp
next
  case (Cons op ops)
  have al: "alignment_ok op" and fit: "request_fits a0 op" using Cons.prems by simp_all
  from arena_step_defined[OF Cons.prems(1) al fit] obtain a1 where s: "arena_step a0 op = Some a1"
    by auto
  note w = arena_step_wf[OF Cons.prems(1) al s]
  have "\<forall>op\<in>set ops. request_fits a1 op"
    using Cons.prems(3) request_fits_reserve[OF w(2)] by simp
  from Cons.IH[OF w(1) _ this] Cons.prems(2) s show ?case by simp
qed

lemma arena_create_wf:
  assumes "arena_create pg rok cok r c = Some (Some a0)" and "unat (reserve_size a0) \<le> 2 ^ 62"
  shows "arena_wf a0" and "position a0 = ARENA_HEADER_SIZE"
    and "unat (position a0) \<le> unat (commit_position a0)"
proof -
  let ?r1 = "align_up r (ucast (platform_get_page_size pg))"
  let ?c1 = "align_up c (ucast (platform_get_page_size pg))"
  let ?c2 = "if ?c1 > ?r1 then ?r1 else ?c1"
  from assms(1) have a0: "a0 = \<lparr> reserve_size = ?r1, commit_size = ?c2,
             position = ARENA_HEADER_SIZE, commit_position = ?c2 \<rparr>"
    and c2: "\<not> ?c2 < ARENA_HEADER_SIZE"
    by (auto simp: arena_create_def Let_def split: if_splits)
  have le: "unat ?c2 \<le> unat ?r1" by (auto simp: word_less_nat_alt)
  have ge: "32 \<le> unat ?c2" using c2 by (simp add: word_less_nat_alt ARENA_HEADER_SIZE_def)
  show "arena_wf a0" using le ge assms(2) unfolding a0
    by (simp add: arena_wf_def ARENA_HEADER_SIZE_def)
  show "position a0 = ARENA_HEADER_SIZE" by (simp add: a0)
  show "unat (position a0) \<le> unat (commit_position a0)"
    using ge by (simp add: a0 ARENA_HEADER_SIZE_def)
qed

text \<open>
  C3, amended: take an arena made by \<open>arena_create\<close> whose reserve is at most
  \<open>2^62\<close> bytes and any sequence of \<open>alloc\<close>, \<open>alloc_aligned\<close> (with power-of-two
  alignments), \<open>reset\<close> and \<open>set_position\<close> calls.  In every state the sequence reaches,
  \<open>header_size \<le> position \<le> reserve_size\<close> and \<open>commit_position \<le> reserve_size\<close>;
  \<open>position \<le> commit_position\<close> holds as long as \<open>set_position\<close> has not been called;
  \<open>set_position\<close> accepts exactly the values in \<open>[header_size, reserve_size]\<close> and
  ignores all others.  A sequence whose requests are not larger than the reserve never
  leaves defined behaviour.
\<close>

theorem C3_arena_bounds:
  assumes "arena_create pg rok cok r c = Some (Some a0)" and "unat (reserve_size a0) \<le> 2 ^ 62"
    and "\<forall>op\<in>set ops. alignment_ok op"
  shows "(\<forall>a. arena_run a0 ops = Some a \<longrightarrow>
            ARENA_HEADER_SIZE \<le> position a \<and> position a \<le> reserve_size a
            \<and> commit_position a \<le> reserve_size a
            \<and> ((\<forall>op\<in>set ops. \<not> is_set_position op) \<longrightarrow> position a \<le> commit_position a)
            \<and> (\<forall>p. arena_set_position (Some a) p
                   = Some (if ARENA_HEADER_SIZE \<le> p \<and> p \<le> reserve_size a
                           then a\<lparr>position := p\<rparr> else a)))
       \<and> ((\<forall>op\<in>set ops. request_fits a0 op) \<longrightarrow> arena_run a0 ops \<noteq> None)"
proof (intro conjI allI impI)
  note c = arena_create_wf[OF assms(1,2)]
  show "arena_run a0 ops \<noteq> None" if "\<forall>op\<in>set ops. request_fits a0 op"
    using arena_run_defined[OF c(1) assms(3) that] .
  fix a assume r: "arena_run a0 ops = Some a"
  note w = arena_run_wf[OF c(1) assms(3) r]
  from w have wfa: "arena_wf a" by simp
  show "ARENA_HEADER_SIZE \<le> position a" "position a \<le> reserve_size a"
    "commit_position a \<le> reserve_size a"
    using wfa by (simp_all add: arena_wf_def word_le_nat_alt ARENA_HEADER_SIZE_def)
  show "position a \<le> commit_position a" if "\<forall>op\<in>set ops. \<not> is_set_position op"
    using w that c(3) by (simp add: word_le_nat_alt)
  show "arena_set_position (Some a) p
          = Some (if ARENA_HEADER_SIZE \<le> p \<and> p \<le> reserve_size a then a\<lparr>position := p\<rparr> else a)"
    for p
    by (simp add: arena_set_position_def)
qed

text \<open>
  C3 as stated fails: \<open>set_position\<close> accepts every value up to \<open>reserve_size\<close>, also
  above \<open>commit_position\<close>.  An arena with 1 MiB reserved and 64 KiB committed takes
  \<open>set_position(1 MiB)\<close>, after which \<open>position > commit_position\<close>.
\<close>

theorem C3_set_position_above_commit:
  "arena_create 4096 True True 1048576 65536
       = Some (Some \<lparr> reserve_size = 1048576, commit_size = 65536, position = 32,
                      commit_position = 65536 \<rparr>)
   \<and> arena_run \<lparr> reserve_size = 1048576, commit_size = 65536, position = 32,
                  commit_position = 65536 \<rparr> [SetPosition 1048576]
       = Some \<lparr> reserve_size = 1048576, commit_size = 65536, position = 1048576,
                commit_position = 65536 \<rparr>
   \<and> \<not> ((1048576 :: size_t) \<le> 65536)"
  by (simp add: arena_create_def platform_get_page_size_def align_up_def
      platform_reserve_memory_def platform_commit_memory_def ARENA_HEADER_SIZE_def
      arena_set_position_def)

lemma arena_demo_run:
  "arena_run \<lparr> reserve_size = 1048576, commit_size = 65536, position = 32,
                commit_position = 65536 \<rparr> [Alloc 100 True, AllocAligned 16 64 True]
     = Some \<lparr> reserve_size = 1048576, commit_size = 65536, position = 208,
              commit_position = 65536 \<rparr>"
  by (simp add: arena_alloc_def arena_alloc_aligned_def align_up_def Let_def min_size_def
      platform_commit_memory_def DEFAULT_ALIGNMENT_def memset_arena_above)

theorem C3_arena_bounds_witness:
  "arena_create 4096 True True 1048576 65536
       = Some (Some \<lparr> reserve_size = 1048576, commit_size = 65536, position = 32,
                      commit_position = 65536 \<rparr>)
   \<and> arena_run \<lparr> reserve_size = 1048576, commit_size = 65536, position = 32,
                  commit_position = 65536 \<rparr> [Alloc 100 True, AllocAligned 16 64 True]
       = Some \<lparr> reserve_size = 1048576, commit_size = 65536, position = 208,
                commit_position = 65536 \<rparr>
   \<and> ARENA_HEADER_SIZE \<le> (208 :: size_t) \<and> (208 :: size_t) \<le> 1048576
   \<and> (65536 :: size_t) \<le> 1048576 \<and> (208 :: size_t) \<le> 65536"
proof -
  let ?a0 = "\<lparr> reserve_size = 1048576, commit_size = 65536, position = 32,
                      commit_position = 65536 \<rparr>"
  let ?ops = "[Alloc 100 True, AllocAligned 16 64 True]"
  have c: "arena_create 4096 True True 1048576 65536 = Some (Some ?a0)"
    by (simp add: arena_create_def platform_get_page_size_def align_up_def
      platform_reserve_memory_def platform_commit_memory_def ARENA_HEADER_SIZE_def)
  have b: "unat (reserve_size ?a0) \<le> 2 ^ 62" by simp
  have "power_of_two 64" unfolding power_of_two_def by (rule exI[of _ 6]) simp
  then have al: "\<forall>op\<in>set ?ops. alignment_ok op" by simp
  have ns: "\<forall>op\<in>set ?ops. \<not> is_set_position op" by simp
  from C3_arena_bounds[OF c b al] arena_demo_run ns c show ?thesis by simp
qed

section \<open>Large blocks\<close>

lemma and_not_mask_eq:
  fixes w :: "'a::len word"
  shows "w AND NOT (mask k) = push_bit k (drop_bit k w)"
  by (rule bit_word_eqI) (auto simp: bit_simps)

lemma unat_round_down:
  fixes w :: "64 word"
  shows "unat (w AND NOT (mask k)) = (unat w div 2 ^ k) * 2 ^ k"
proof -
  have le: "(unat w div 2 ^ k) * 2 ^ k \<le> unat w"
    by (simp add: div_times_less_eq_dividend)
  have lt: "unat w < 2 ^ 64" using unsigned_less[of w, where 'a=nat] by simp
  have "unat (push_bit k (drop_bit k w)) = (unat (drop_bit k w) * 2 ^ k) mod 2 ^ 64"
    by (subst unsigned_push_bit_eq) (simp add: take_bit_eq_mod push_bit_eq_mult)
  also have "unat (drop_bit k w) = unat w div 2 ^ k"
    by (subst unat_drop_bit_eq) (simp add: drop_bit_eq_div)
  also have "(unat w div 2 ^ k) * 2 ^ k mod 2 ^ 64 = (unat w div 2 ^ k) * 2 ^ k"
    by (rule mod_less) (use le lt in linarith)
  finally show ?thesis by (simp add: and_not_mask_eq)
qed

lemma huge_mask: "HUGE_PAGE_SIZE - 1 = mask 21"
  by (simp add: HUGE_PAGE_SIZE_def mask_eq_decr_exp)

lemma unat_huge: "unat HUGE_PAGE_SIZE = 2097152"
  by (simp add: HUGE_PAGE_SIZE_def)

text \<open>The bit trick of the source rounds up to the next multiple of 2 MiB, unless the
  addition wraps.\<close>

lemma huge_round_up:
  fixes m :: size_t
  assumes "unat m + 2097151 < 2 ^ 64"
  shows "unat ((m + HUGE_PAGE_SIZE - 1) AND NOT (HUGE_PAGE_SIZE - 1))
           = ((unat m + 2097151) div 2097152) * 2097152"
proof -
  have e: "(m + HUGE_PAGE_SIZE - 1) AND NOT (HUGE_PAGE_SIZE - 1) = (m + 2097151) AND NOT (mask 21)"
    by (simp add: HUGE_PAGE_SIZE_def mask_eq_decr_exp add.commute)
  have u: "unat (m + 2097151) = unat m + 2097151"
    using assms unat_plus_of_nat[of m 2097151] by simp
  show ?thesis unfolding e unat_round_down u by simp
qed

lemma page_round_pos:
  assumes "n \<noteq> 0"
  shows "4096 \<le> page_round n"
proof -
  have "1 \<le> (n + 4095) div 4096"
    using assms by (simp add: Suc_le_eq div_greater_zero_iff)
  then have "1 * 4096 \<le> (n + 4095) div 4096 * 4096" by (rule mult_le_mono1)
  then show ?thesis by (simp add: page_round_def OS_PAGE_SIZE_def)
qed

lemma large_block_mmap_Some:
  assumes "large_block_mmap s e len = Some (s1, a)"
  shows "s1 = s\<lparr>mapped := (a, page_round (unat len)) # mapped s\<rparr>"
    and "unat a + page_round (unat len) \<le> 2 ^ 64" and "a \<noteq> NULL" and "len \<noteq> 0"
    and "region_free s a (page_round (unat len))"
  using assms
  by (auto simp: large_block_mmap_def split: if_splits option.splits dest: os_mmap_Some)

lemma accessible_head:
  assumes "unat a + l \<le> 2 ^ 64" and "n \<le> l" and "mapped s = (a, l) # rest"
  shows "accessible s a n"
  using assms by (simp add: accessible_def in_range_def)

lemma accessible_mem_update [simp]: "accessible (s\<lparr>mem := m\<rparr>) a n = accessible s a n"
  by (simp add: accessible_def)

lemma bind_to_node_no_numa [simp]: "\<not> numa_available e \<Longrightarrow> bind_to_node e node = Some ()"
  by (simp add: bind_to_node_def)

lemma numa_available_one_node [simp]: "\<not> numa_available env_one_node"
  by (simp add: env_one_node_def)

lemma allocate_large_block_eq:
  "allocate_large_block s e node sz =
     (case large_block_mmap s e (large_block_length sz) of
        None \<Rightarrow> Some (s, NULL)
      | Some (s1, a) \<Rightarrow>
          (case bind_to_node e node of
             None \<Rightarrow> None
           | Some u \<Rightarrow>
               Some (s1\<lparr>mem := store_bytes (memset_mem (mem s1) a 0 (large_block_length sz)) a
                        (header_bytes \<lparr> hdr_size = large_block_length sz, hdr_size_class = - 1,
                                        hdr_numa_node = node \<rparr>)\<rparr>,
                     a + HEADER_SIZE)))"
proof -
  let ?len = "large_block_length sz"
  have shape: "allocate_large_block s e node sz =
        (case large_block_mmap s e ?len of None \<Rightarrow> Some (s, NULL)
         | Some (s1, p) \<Rightarrow> do {
             u \<leftarrow> bind_to_node e node;
             s2 \<leftarrow> memset s1 p 0 ?len;
             s3 \<leftarrow> write_header s2 p \<lparr> hdr_size = ?len, hdr_size_class = - 1, hdr_numa_node = node \<rparr>;
             Some (s3, p + HEADER_SIZE) })"
    unfolding allocate_large_block_def large_block_mmap_def large_block_length_def Let_def
    by (rule refl)
  show ?thesis
  proof (cases "large_block_mmap s e ?len")
    case None
    then show ?thesis using shape by simp
  next
    case (Some r)
    obtain s1 a where r: "r = (s1, a)" by (cases r)
    note m = large_block_mmap_Some[OF Some[unfolded r]]
    have nz: "unat ?len \<noteq> 0" using m(4) by (simp add: unat_eq_0)
    have acc1: "accessible s1 a (unat ?len)"
      using m(2) page_round_ge[of "unat ?len"] by (intro accessible_head[of _ "page_round (unat ?len)"]) (simp_all add: m(1))
    have acc2: "accessible s1 a 16"
      using m(2) page_round_pos[OF nz] by (intro accessible_head[of _ "page_round (unat ?len)"]) (simp_all add: m(1))
    show ?thesis
    proof (cases "bind_to_node e node")
      case None
      then show ?thesis using shape Some r by simp
    next
      case (Some u)
      then show ?thesis using shape \<open>large_block_mmap s e ?len = Some r\<close> r acc1 acc2
        by (simp add: memset_def write_header_def)
    qed
  qed
qed

lemma replicate_8: "replicate 8 x = [x, x, x, x, x, x, x, x]"
  by (simp add: eval_nat_numeral)

lemma replicate_4: "replicate 4 x = [x, x, x, x]"
  by (simp add: eval_nat_numeral)

lemma init_one_node:
  "numalloc_init start_state env_one_node 1048576 = Some (state_one_node, 0)"
  apply (simp add: numalloc_init_def start_state_def env_one_node_def discover_numa_topology_def)
  apply (simp add: init_pools.simps create_node_pool_def os_mmap_def region_free_def
        page_round_def OS_PAGE_SIZE_def NULL_def memset_def accessible_def in_range_def
        MAX_NUMA_NODES_def state_one_node_def replicate_8 replicate_4)
  done

lemma get_or_create_arena_cases:
  assumes "get_or_create_arena s e t = Some (s1, a)"
  shows "my_arena s1 t = a" and "\<And>t'. t' \<noteq> t \<Longrightarrow> my_arena s1 t' = my_arena s t'"
    and "g_topology s1 = g_topology s" and "g_node_pools s1 = g_node_pools s"
    and "g_initialized s1 = g_initialized s" and "mem s1 = mem s" and "mapped s1 = mapped s"
    and "my_arena s t \<noteq> None \<Longrightarrow> s1 = s"
  using assms
  by (auto simp: get_or_create_arena_def split: option.splits bind_splits)

lemma plus_header_not_null:
  fixes a :: addr
  assumes "unat a + 4096 \<le> 2 ^ 64" and "a \<noteq> NULL"
  shows "a + HEADER_SIZE \<noteq> NULL" and "a + HEADER_SIZE - HEADER_SIZE = a"
    and "unat (a + HEADER_SIZE) = unat a + 16"
proof -
  show u: "unat (a + HEADER_SIZE) = unat a + 16"
    using unat_plus_of_nat[of a 16] assms by (simp add: HEADER_SIZE_def)
  then show "a + HEADER_SIZE \<noteq> NULL"
    by (auto simp: NULL_def)
  show "a + HEADER_SIZE - HEADER_SIZE = a" by simp
qed

text \<open>A request above the largest class goes to \<open>allocate_large_block\<close> and, when the
  mapping is granted, is counted in \<open>stats_allocs\<close>.\<close>

lemma numalloc_large:
  assumes "g_initialized s" and "2048 < sz"
    and "get_or_create_arena s e t = Some (s1, Some arena)"
  shows "numalloc s e t sz =
     (case large_block_mmap s1 e (large_block_length sz) of
        None \<Rightarrow> Some (s1, NULL)
      | Some (s2, a) \<Rightarrow>
          (case bind_to_node e (numa_node arena) of
             None \<Rightarrow> None
           | Some u \<Rightarrow>
               Some (set_arena
                  (s2\<lparr>mem := store_bytes (memset_mem (mem s2) a 0 (large_block_length sz)) a
                     (header_bytes \<lparr> hdr_size = large_block_length sz, hdr_size_class = - 1,
                                     hdr_numa_node = numa_node arena \<rparr>)\<rparr>)
                  t (arena\<lparr>stats_allocs := stats_allocs arena + 1\<rparr>),
                a + HEADER_SIZE)))"
proof -
  have nz: "sz \<noteq> 0" using assms(2) by auto
  note g = get_or_create_arena_cases[OF assms(3)]
  have sp: "slow_path_alloc s1 e t sz (- 1) = allocate_large_block s1 e (numa_node arena) sz"
    using g(1) by (simp add: slow_path_alloc_def)
  have 1: "numalloc s e t sz = do {
              (s2, ptr) \<leftarrow> slow_path_alloc s1 e t sz (- 1);
              if ptr \<noteq> NULL then do {
                arena2 \<leftarrow> my_arena s2 t;
                Some (set_arena s2 t (arena2\<lparr>stats_allocs := stats_allocs arena2 + 1\<rparr>), ptr)
              }
              else Some (s2, ptr) }"
    using assms(1,3) nz by (simp add: numalloc_def size_class_large[OF assms(2)])
  show ?thesis
  proof (cases "large_block_mmap s1 e (large_block_length sz)")
    case None
    then show ?thesis
      by (simp add: 1 sp allocate_large_block_eq)
  next
    case (Some r)
    obtain s2 a where r: "r = (s2, a)" by (cases r)
    note m = large_block_mmap_Some[OF Some[unfolded r]]
    have "unat (large_block_length sz) \<noteq> 0" using m(4) by (simp add: unat_eq_0)
    then have "4096 \<le> page_round (unat (large_block_length sz))" by (rule page_round_pos)
    then have "unat a + 4096 \<le> 2 ^ 64" using m(2) by linarith
    note nn = plus_header_not_null[OF this m(3)]
    have ar: "my_arena s2 t = Some arena" using g(1) by (simp add: m(1))
    show ?thesis
    proof (cases "bind_to_node e (numa_node arena)")
      case None
      then show ?thesis using Some r by (simp add: 1 sp allocate_large_block_eq)
    next
      case (Some u)
      then show ?thesis
        using \<open>large_block_mmap s1 e (large_block_length sz) = Some r\<close> r nn(1) ar
        by (simp add: 1 sp allocate_large_block_eq set_arena_def)
    qed
  qed
qed

lemma arena_one_node:
  "get_or_create_arena state_one_node env_one_node 0
     = Some (state_one_node\<lparr>my_arena := (\<lambda>t. None)(0 := Some (arena_fresh 0))\<rparr>,
             Some (arena_fresh 0))"
  by (simp add: get_or_create_arena_def state_one_node_def create_arena_def env_one_node_def
      get_current_numa_node_def idx_def arena_fresh_def)

lemma mmap_one_node_3016:
  "large_block_mmap (state_one_node\<lparr>my_arena := f\<rparr>) env_one_node 3016
     = Some (state_one_node\<lparr>my_arena := f, mapped := [(1073741824, 4096), (268435456, 1048576)]\<rparr>,
             1073741824)"
  by (simp add: large_block_mmap_def HUGE_PAGE_SIZE_def os_mmap_def env_one_node_def NULL_def
      page_round_def OS_PAGE_SIZE_def region_free_def state_one_node_def)

lemma large_block_length_3000: "large_block_length 3000 = 3016"
  by (simp add: large_block_length_def HEADER_SIZE_def HUGE_PAGE_SIZE_def)

lemma header_after_write:
  assumes "int32 (hdr_size_class h)" and "int32 (hdr_numa_node h)" and "accessible s a 16"
    and "mem s = store_bytes m a (header_bytes h)"
  shows "read_header s a = Some h"
  using assms by (simp add: read_header_def header_at_store)

text \<open>
  C1 as stated fails below the huge-page size: a request of 3000 bytes is mapped with
  length 3016, and 3016 is what the header records; it is not a multiple of the page size.
\<close>

theorem C1_small_mapping_not_page_rounded:
  "\<exists>s' p. numalloc state_one_node env_one_node 0 3000 = Some (s', p) \<and> p \<noteq> NULL
      \<and> map_option hdr_size (read_header s' (p - HEADER_SIZE)) = Some 3016
      \<and> (3016 :: nat) mod OS_PAGE_SIZE \<noteq> 0"
proof -
  have g: "g_initialized state_one_node" by (simp add: state_one_node_def)
  note n = numalloc_large[OF g _ arena_one_node, of 3000, simplified large_block_length_3000 mmap_one_node_3016, simplified]
  show ?thesis
    apply (simp add: n)
    apply (subst header_after_write[where h="\<lparr> hdr_size = 3016, hdr_size_class = - 1, hdr_numa_node = 0 \<rparr>"])
    apply (simp_all add: int32_def arena_fresh_def set_arena_def accessible_def in_range_def HEADER_SIZE_def NULL_def OS_PAGE_SIZE_def)
    done
qed

lemma set_arena_simps [simp]:
  "mem (set_arena s t a) = mem s" "mapped (set_arena s t a) = mapped s"
  "g_node_pools (set_arena s t a) = g_node_pools s" "g_topology (set_arena s t a) = g_topology s"
  "g_initialized (set_arena s t a) = g_initialized s"
  "my_arena (set_arena s t a) t = Some a"
  "t' \<noteq> t \<Longrightarrow> my_arena (set_arena s t a) t' = my_arena s t'"
  by (simp_all add: set_arena_def)

lemma accessible_set_arena [simp]: "accessible (set_arena s t a) p n = accessible s p n"
  by (simp add: accessible_def)

lemma read_header_set_arena [simp]: "read_header (set_arena s t a) p = read_header s p"
  by (simp add: read_header_def)

lemma numalloc_positive:
  assumes "numalloc s e t sz = Some (s', p)" and "p \<noteq> NULL"
  shows "g_initialized s" and "sz \<noteq> 0"
    and "\<exists>s1 arena. get_or_create_arena s e t = Some (s1, Some arena)"
  using assms by (auto simp: numalloc_def split: if_splits bind_splits option.splits)

text \<open>What a successful large allocation leaves behind.\<close>

lemma numalloc_large_facts:
  assumes "2048 < sz" and "numalloc s e t sz = Some (s', p)" and "p \<noteq> NULL"
  obtains s1 s2 arena where
    "get_or_create_arena s e t = Some (s1, Some arena)"
    "large_block_mmap s1 e (large_block_length sz) = Some (s2, p - HEADER_SIZE)"
    "s' = set_arena
            (s2\<lparr>mem := store_bytes (memset_mem (mem s2) (p - HEADER_SIZE) 0 (large_block_length sz))
                          (p - HEADER_SIZE)
                          (header_bytes \<lparr> hdr_size = large_block_length sz, hdr_size_class = - 1,
                                          hdr_numa_node = numa_node arena \<rparr>)\<rparr>)
            t (arena\<lparr>stats_allocs := stats_allocs arena + 1\<rparr>)"
    "unat (p - HEADER_SIZE) + 4096 \<le> 2 ^ 64" "unat p = unat (p - HEADER_SIZE) + 16"
proof -
  from numalloc_positive[OF assms(2,3)] obtain s1 arena
    where g: "g_initialized s" "get_or_create_arena s e t = Some (s1, Some arena)" by blast
  note n = numalloc_large[OF g(1) assms(1) g(2)]
  show ?thesis
  proof (cases "large_block_mmap s1 e (large_block_length sz)")
    case None
    then show ?thesis using n assms by simp
  next
    case (Some r)
    obtain s2 a where r: "r = (s2, a)" by (cases r)
    note m = large_block_mmap_Some[OF Some[unfolded r]]
    have "unat (large_block_length sz) \<noteq> 0" using m(4) by (simp add: unat_eq_0)
    then have "4096 \<le> page_round (unat (large_block_length sz))" by (rule page_round_pos)
    then have w: "unat a + 4096 \<le> 2 ^ 64" using m(2) by linarith
    note nn = plus_header_not_null[OF this m(3)]
    have "bind_to_node e (numa_node arena) \<noteq> None"
      using n assms(2) Some r by (auto split: option.splits)
    then have "Some (s', p) = Some (set_arena
            (s2\<lparr>mem := store_bytes (memset_mem (mem s2) a 0 (large_block_length sz)) a
                          (header_bytes \<lparr> hdr_size = large_block_length sz, hdr_size_class = - 1,
                                          hdr_numa_node = numa_node arena \<rparr>)\<rparr>)
            t (arena\<lparr>stats_allocs := stats_allocs arena + 1\<rparr>), a + HEADER_SIZE)"
      using n assms(2) Some r by auto
    then have p: "p = a + HEADER_SIZE" and s': "s' = set_arena
            (s2\<lparr>mem := store_bytes (memset_mem (mem s2) a 0 (large_block_length sz)) a
                          (header_bytes \<lparr> hdr_size = large_block_length sz, hdr_size_class = - 1,
                                          hdr_numa_node = numa_node arena \<rparr>)\<rparr>)
            t (arena\<lparr>stats_allocs := stats_allocs arena + 1\<rparr>)"
      by simp_all
    show ?thesis
    proof (rule that[of s1 arena s2])
      show "get_or_create_arena s e t = Some (s1, Some arena)" by fact
      show "large_block_mmap s1 e (large_block_length sz) = Some (s2, p - HEADER_SIZE)"
        using Some r unfolding p by simp
      show "s' = set_arena
            (s2\<lparr>mem := store_bytes (memset_mem (mem s2) (p - HEADER_SIZE) 0 (large_block_length sz))
                          (p - HEADER_SIZE)
                          (header_bytes \<lparr> hdr_size = large_block_length sz, hdr_size_class = - 1,
                                          hdr_numa_node = numa_node arena \<rparr>)\<rparr>)
            t (arena\<lparr>stats_allocs := stats_allocs arena + 1\<rparr>)"
        using s' unfolding p by simp
      show "unat (p - HEADER_SIZE) + 4096 \<le> 2 ^ 64" using w unfolding p by simp
      show "unat p = unat (p - HEADER_SIZE) + 16" using nn(3) unfolding p by simp
    qed
  qed
qed

lemma large_block_length_small:
  "sz + HEADER_SIZE < HUGE_PAGE_SIZE \<Longrightarrow> large_block_length sz = sz + HEADER_SIZE"
  by (simp add: large_block_length_def Let_def not_le[symmetric])

lemma large_block_length_huge:
  assumes "HUGE_PAGE_SIZE \<le> sz + HEADER_SIZE" and "unat (sz + HEADER_SIZE) + 2097151 < 2 ^ 64"
  shows "unat (large_block_length sz) = (unat (sz + HEADER_SIZE) + 2097151) div 2097152 * 2097152"
  using assms huge_round_up[of "sz + HEADER_SIZE"]
  by (simp add: large_block_length_def Let_def)

lemma multiple_of_huge_is_page_multiple: "(k * 2097152) mod OS_PAGE_SIZE = (0 :: nat)"
proof -
  have "k * 2097152 = (k * 512) * 4096" by simp
  then show ?thesis unfolding OS_PAGE_SIZE_def by (metis mod_mult_self2_is_0)
qed

lemma large_block_length_2m1: "large_block_length 2097153 = 4194304"
  by (simp add: large_block_length_def HEADER_SIZE_def HUGE_PAGE_SIZE_def)

text \<open>When the addition of the bit trick wraps, the rounded length is zero.\<close>

lemma huge_round_wrap:
  fixes m :: size_t
  assumes "2 ^ 64 \<le> unat m + 2097151"
  shows "(m + HUGE_PAGE_SIZE - 1) AND NOT (HUGE_PAGE_SIZE - 1) = 0"
proof -
  have e: "(m + HUGE_PAGE_SIZE - 1) AND NOT (HUGE_PAGE_SIZE - 1) = (m + 2097151) AND NOT (mask 21)"
    by (simp add: HUGE_PAGE_SIZE_def mask_eq_decr_exp add.commute)
  have lt: "unat m < 2 ^ 64" using unsigned_less[of m, where 'a=nat] by simp
  have "unat (m + 2097151) = (unat m + 2097151) mod 2 ^ 64"
    by (simp add: unat_word_ariths)
  also have "\<dots> = (unat m + 2097151 - 2 ^ 64) mod 2 ^ 64"
    using assms by (rule le_mod_geq)
  also have "\<dots> = unat m + 2097151 - 2 ^ 64"
    by (rule mod_less) (use lt in simp)
  finally have "unat (m + 2097151) < 2097152" using lt by simp
  then have "unat (m + 2097151) div 2 ^ 21 = 0" by simp
  then have "unat ((m + 2097151) AND NOT (mask 21)) = 0"
    by (simp only: unat_round_down mult_zero_left)
  then show ?thesis unfolding e by (simp add: unat_eq_0)
qed

text \<open>
  The length of a mapping that is not empty, when the addition of the header does not
  wrap: the request and its header, rounded up to 2 MiB from 2 MiB on.
\<close>

lemma large_block_length_unat:
  assumes "unat n + 16 < 2 ^ 64" and "large_block_length n \<noteq> 0"
  shows "unat (large_block_length n)
           = (if unat n + 16 < 2097152 then unat n + 16
              else (unat n + 16 + 2097151) div 2097152 * 2097152)"
proof -
  have t: "unat (n + HEADER_SIZE) = unat n + 16"
    using unat_plus_of_nat[of n 16] assms(1) by (simp add: HEADER_SIZE_def)
  show ?thesis
  proof (cases "unat n + 16 < 2097152")
    case True
    then have "n + HEADER_SIZE < HUGE_PAGE_SIZE"
      using t by (simp add: word_less_nat_alt unat_huge)
    then have "large_block_length n = n + HEADER_SIZE" by (rule large_block_length_small)
    then show ?thesis using True t by simp
  next
    case False
    then have ge: "HUGE_PAGE_SIZE \<le> n + HEADER_SIZE"
      using t by (simp add: word_le_nat_alt unat_huge)
    have "unat (n + HEADER_SIZE) + 2097151 < 2 ^ 64"
    proof (rule ccontr)
      assume "\<not> unat (n + HEADER_SIZE) + 2097151 < 2 ^ 64"
      then have "2 ^ 64 \<le> unat (n + HEADER_SIZE) + 2097151" by simp
      then have "(n + HEADER_SIZE + HUGE_PAGE_SIZE - 1) AND NOT (HUGE_PAGE_SIZE - 1) = 0"
        by (rule huge_round_wrap)
      then have "large_block_length n = 0" using ge by (simp add: large_block_length_def Let_def)
      then show False using assms(2) by simp
    qed
    then have "unat (large_block_length n)
        = (unat (n + HEADER_SIZE) + 2097151) div 2097152 * 2097152"
      using ge by (intro large_block_length_huge)
    then show ?thesis using False t by simp
  qed
qed

lemma mmap_one_node_4194304:
  "large_block_mmap (state_one_node\<lparr>my_arena := f\<rparr>) env_one_node 4194304
     = Some (state_one_node\<lparr>my_arena := f, mapped := [(1073741824, 4194304), (268435456, 1048576)]\<rparr>,
             1073741824)"
  by (simp add: large_block_mmap_def HUGE_PAGE_SIZE_def os_mmap_def env_one_node_def NULL_def
      page_round_def OS_PAGE_SIZE_def region_free_def state_one_node_def)

text \<open>
  C1, amended: for a large request of \<open>n\<close> bytes whose sum with the 16 bytes of the
  header fits \<open>size_t\<close>, and that is granted, the length of the mapping is
  \<open>m = n + 16\<close> itself when \<open>m\<close> is below 2 MiB, with no rounding to the page size,
  and \<open>m\<close> rounded up to a multiple of 2 MiB (hence of the page size) from 2 MiB on.
  The header of the block records exactly the length passed to \<open>mmap\<close>, its class is
  the sentinel, and \<open>numalloc_free\<close> passes the recorded length to \<open>munmap\<close>, which
  releases the mapping.
\<close>

theorem C1_large_block_length_recorded:
  assumes "2048 < n" and "unat n + 16 < 2 ^ 64"
    and "numalloc s e t n = Some (s', p)" and "p \<noteq> NULL"
    and "my_arena s' t = Some a" and "int32 (numa_node a)"
  shows "unat (large_block_length n)
           = (if unat n + 16 < 2097152 then unat n + 16
              else (unat n + 16 + 2097151) div 2097152 * 2097152)
     \<and> (2097152 \<le> unat n + 16 \<longrightarrow> unat (large_block_length n) mod OS_PAGE_SIZE = 0)
     \<and> (\<exists>s1 s2. large_block_mmap s1 e (large_block_length n) = Some (s2, p - HEADER_SIZE)
            \<and> mapped s' = mapped s2)
     \<and> read_header s' (p - HEADER_SIZE)
          = Some \<lparr> hdr_size = large_block_length n, hdr_size_class = - 1,
                   hdr_numa_node = numa_node a \<rparr>
     \<and> numalloc_free s' e' t' p = os_munmap s' (p - HEADER_SIZE) (large_block_length n)
     \<and> os_munmap s' (p - HEADER_SIZE) (large_block_length n)
          = Some (s'\<lparr>mapped := tl (mapped s')\<rparr>)"
proof -
  from numalloc_large_facts[OF assms(1,3,4)] obtain s1 s2 arena where
    g: "get_or_create_arena s e t = Some (s1, Some arena)"
    and mm: "large_block_mmap s1 e (large_block_length n) = Some (s2, p - HEADER_SIZE)"
    and s': "s' = set_arena
            (s2\<lparr>mem := store_bytes (memset_mem (mem s2) (p - HEADER_SIZE) 0 (large_block_length n))
                          (p - HEADER_SIZE)
                          (header_bytes \<lparr> hdr_size = large_block_length n, hdr_size_class = - 1,
                                          hdr_numa_node = numa_node arena \<rparr>)\<rparr>)
            t (arena\<lparr>stats_allocs := stats_allocs arena + 1\<rparr>)"
    and w: "unat (p - HEADER_SIZE) + 4096 \<le> 2 ^ 64" and up: "unat p = unat (p - HEADER_SIZE) + 16"
    by blast
  note m = large_block_mmap_Some[OF mm]
  have node: "numa_node a = numa_node arena" using assms(5) by (auto simp: s')
  have mp: "mapped s' = (p - HEADER_SIZE, page_round (unat (large_block_length n))) # mapped s1"
    by (simp add: s' m(1))
  have "unat (large_block_length n) \<noteq> 0" using m(4) by (simp add: unat_eq_0)
  then have "4096 \<le> page_round (unat (large_block_length n))" by (rule page_round_pos)
  then have acc: "accessible s' (p - HEADER_SIZE) 16"
    using m(2) mp by (intro accessible_head[of _ "page_round (unat (large_block_length n))"]) simp_all
  have rh: "read_header s' (p - HEADER_SIZE)
          = Some \<lparr> hdr_size = large_block_length n, hdr_size_class = - 1,
                   hdr_numa_node = numa_node a \<rparr>"
    using assms(6) acc by (intro header_after_write) (simp_all add: int32_def s' node)
  have pn: "p \<noteq> NULL" by fact
  have fr: "numalloc_free s' e' t' p = os_munmap s' (p - HEADER_SIZE) (large_block_length n)"
    using pn rh by (simp add: numalloc_free_def free_large_block_def)
  have mu: "os_munmap s' (p - HEADER_SIZE) (large_block_length n)
          = Some (s'\<lparr>mapped := tl (mapped s')\<rparr>)"
    by (simp add: os_munmap_def mp)
  have len: "unat (large_block_length n)
           = (if unat n + 16 < 2097152 then unat n + 16
              else (unat n + 16 + 2097151) div 2097152 * 2097152)"
    using assms(2) m(4) by (rule large_block_length_unat)
  have hp: "2097152 \<le> unat n + 16 \<longrightarrow> unat (large_block_length n) mod OS_PAGE_SIZE = 0"
    using len multiple_of_huge_is_page_multiple by simp
  have ex: "\<exists>s1 s2. large_block_mmap s1 e (large_block_length n) = Some (s2, p - HEADER_SIZE)
            \<and> mapped s' = mapped s2"
  proof (intro exI conjI)
    show "large_block_mmap s1 e (large_block_length n) = Some (s2, p - HEADER_SIZE)" by fact
    show "mapped s' = mapped s2" by (simp add: s')
  qed
  from len hp ex rh fr mu show ?thesis by blast
qed

theorem C1_large_block_length_witness:
  "\<exists>s' a s'' a''.
        numalloc state_one_node env_one_node 0 3000 = Some (s', 1073741840)
      \<and> my_arena s' 0 = Some a \<and> int32 (numa_node a)
      \<and> unat (large_block_length 3000) = 3016
      \<and> read_header s' (1073741840 - HEADER_SIZE)
            = Some \<lparr> hdr_size = 3016, hdr_size_class = - 1, hdr_numa_node = numa_node a \<rparr>
      \<and> numalloc_free s' env_one_node 0 1073741840 = Some (s'\<lparr>mapped := tl (mapped s')\<rparr>)
      \<and> numalloc state_one_node env_one_node 0 2097153 = Some (s'', 1073741840)
      \<and> my_arena s'' 0 = Some a'' \<and> int32 (numa_node a'')
      \<and> unat (large_block_length 2097153) = 4194304
      \<and> (4194304 :: nat) mod OS_PAGE_SIZE = 0
      \<and> read_header s'' (1073741840 - HEADER_SIZE)
            = Some \<lparr> hdr_size = 4194304, hdr_size_class = - 1, hdr_numa_node = numa_node a'' \<rparr>
      \<and> numalloc_free s'' env_one_node 0 1073741840 = Some (s''\<lparr>mapped := tl (mapped s'')\<rparr>)"
proof -
  have g: "g_initialized state_one_node" by (simp add: state_one_node_def)
  have nn: "(1073741840 :: addr) \<noteq> NULL" by (simp add: NULL_def)
  have i: "int32 (numa_node ((arena_fresh 0)\<lparr>stats_allocs := 1\<rparr>))"
    by (simp add: int32_def arena_fresh_def)
  obtain s' where n: "numalloc state_one_node env_one_node 0 3000 = Some (s', 1073741840)"
    and a: "my_arena s' 0 = Some ((arena_fresh 0)\<lparr>stats_allocs := 1\<rparr>)"
    by (simp add: numalloc_large[OF g _ arena_one_node] large_block_length_3000
        mmap_one_node_3016 HEADER_SIZE_def arena_fresh_def)
  have lt: "(2048 :: size_t) < 3000" by simp
  have nw: "unat (3000 :: size_t) + 16 < 2 ^ 64" by simp
  note t = C1_large_block_length_recorded[OF lt nw n nn a i, of env_one_node 0]
  from t have l: "unat (large_block_length 3000) = 3016" by simp
  then have lw: "large_block_length 3000 = 3016" by (simp add: large_block_length_3000)
  from t have rh: "read_header s' (1073741840 - HEADER_SIZE)
            = Some \<lparr> hdr_size = 3016, hdr_size_class = - 1,
                     hdr_numa_node = numa_node ((arena_fresh 0)\<lparr>stats_allocs := 1\<rparr>) \<rparr>"
    unfolding lw by blast
  from t have "numalloc_free s' env_one_node 0 1073741840
       = os_munmap s' (1073741840 - HEADER_SIZE) (large_block_length 3000)"
    and "os_munmap s' (1073741840 - HEADER_SIZE) (large_block_length 3000)
       = Some (s'\<lparr>mapped := tl (mapped s')\<rparr>)"
    by blast+
  then have fr: "numalloc_free s' env_one_node 0 1073741840 = Some (s'\<lparr>mapped := tl (mapped s')\<rparr>)"
    by simp
  obtain s'' where n2: "numalloc state_one_node env_one_node 0 2097153 = Some (s'', 1073741840)"
    and a2: "my_arena s'' 0 = Some ((arena_fresh 0)\<lparr>stats_allocs := 1\<rparr>)"
    by (simp add: numalloc_large[OF g _ arena_one_node] large_block_length_2m1
        mmap_one_node_4194304 HEADER_SIZE_def arena_fresh_def)
  have lt2: "(2048 :: size_t) < 2097153" by simp
  have nw2: "unat (2097153 :: size_t) + 16 < 2 ^ 64" by simp
  note t2 = C1_large_block_length_recorded[OF lt2 nw2 n2 nn a2 i, of env_one_node 0]
  from t2 have l2: "unat (large_block_length 2097153) = 4194304" by simp
  have lw2: "large_block_length 2097153 = 4194304" by (rule large_block_length_2m1)
  from t2 l2 have pm: "(4194304 :: nat) mod OS_PAGE_SIZE = 0" by simp
  from t2 have rh2: "read_header s'' (1073741840 - HEADER_SIZE)
            = Some \<lparr> hdr_size = 4194304, hdr_size_class = - 1,
                     hdr_numa_node = numa_node ((arena_fresh 0)\<lparr>stats_allocs := 1\<rparr>) \<rparr>"
    unfolding lw2 by blast
  from t2 have "numalloc_free s'' env_one_node 0 1073741840
       = os_munmap s'' (1073741840 - HEADER_SIZE) (large_block_length 2097153)"
    and "os_munmap s'' (1073741840 - HEADER_SIZE) (large_block_length 2097153)
       = Some (s''\<lparr>mapped := tl (mapped s'')\<rparr>)"
    by blast+
  then have fr2: "numalloc_free s'' env_one_node 0 1073741840 = Some (s''\<lparr>mapped := tl (mapped s'')\<rparr>)"
    by simp
  show ?thesis
    by (rule exI[of _ s'], rule exI[of _ "(arena_fresh 0)\<lparr>stats_allocs := 1\<rparr>"],
        rule exI[of _ s''], rule exI[of _ "(arena_fresh 0)\<lparr>stats_allocs := 1\<rparr>"])
       (intro conjI n a i l rh fr n2 a2 l2 pm rh2 fr2)
qed

section \<open>Counters, zeroed allocation and resizing on large blocks\<close>

lemma page_round_le: "page_round n \<le> n + 4095"
proof -
  have "(n + 4095) div 4096 * 4096 \<le> n + 4095" by (rule div_times_less_eq_dividend)
  then show ?thesis by (simp add: page_round_def OS_PAGE_SIZE_def)
qed

lemma mmap_one_node:
  assumes "len \<noteq> 0" and "unat len \<le> 2 ^ 32"
  shows "large_block_mmap (state_one_node\<lparr>my_arena := f\<rparr>) env_one_node len
     = Some (state_one_node\<lparr>my_arena := f,
                mapped := [(1073741824, page_round (unat len)), (268435456, 1048576)]\<rparr>,
             1073741824)"
proof -
  have "page_round (unat len) \<le> 4294971391" using page_round_le[of "unat len"] assms(2) by simp
  then show ?thesis using assms
    by (simp add: large_block_mmap_def os_mmap_def env_one_node_def NULL_def
      region_free_def state_one_node_def)
qed

text \<open>A large request on the freshly initialised one-node machine, first call of thread 0.\<close>

lemma numalloc_one_node_large:
  assumes "2048 < sz" and "large_block_length sz \<noteq> 0" and "unat (large_block_length sz) \<le> 2 ^ 32"
  shows "numalloc state_one_node env_one_node 0 sz =
     Some (set_arena
             (state_one_node\<lparr>my_arena := (\<lambda>t. None)(0 := Some (arena_fresh 0)),
                mapped := [(1073741824, page_round (unat (large_block_length sz))),
                           (268435456, 1048576)],
                mem := store_bytes
                     (memset_mem (mem state_one_node) 1073741824 0 (large_block_length sz))
                     1073741824
                     (header_bytes \<lparr> hdr_size = large_block_length sz, hdr_size_class = - 1,
                                     hdr_numa_node = 0 \<rparr>)\<rparr>)
             0 ((arena_fresh 0)\<lparr>stats_allocs := 1\<rparr>),
           1073741840)"
proof -
  have g: "g_initialized state_one_node" by (simp add: state_one_node_def)
  show ?thesis
    by (subst numalloc_large[OF g assms(1) arena_one_node])
       (simp add: mmap_one_node[OF assms(2,3)] HEADER_SIZE_def arena_fresh_def)
qed

lemma large_block_length_4096: "large_block_length 4096 = 4112"
  by (simp add: large_block_length_def HEADER_SIZE_def HUGE_PAGE_SIZE_def)

lemma read_header_one_node_large:
  assumes "mapped s = (1073741824, l) # rest" and "16 \<le> l" and "l \<le> 2 ^ 32"
    and "mem s = store_bytes m 1073741824 (header_bytes h)"
    and "int32 (hdr_size_class h)" and "int32 (hdr_numa_node h)"
  shows "read_header s (1073741840 - HEADER_SIZE) = Some h"
proof -
  have "accessible s 1073741824 16"
    using assms(2,3) by (intro accessible_head[OF _ _ assms(1)]) simp_all
  then show ?thesis using assms(4-6)
    by (simp add: HEADER_SIZE_def header_after_write)
qed

text \<open>
  C8 fails on the code for large blocks.  On the freshly initialised one-node machine
  thread 0 allocates 4096 bytes and frees them: the allocation is counted, the free is
  not, because \<open>numalloc_free\<close> returns right after \<open>free_large_block\<close>.
\<close>

theorem C8_large_free_not_counted:
  "\<exists>s1 p s2. numalloc state_one_node env_one_node 0 4096 = Some (s1, p) \<and> p \<noteq> NULL
      \<and> numalloc_get_thread_stats s1 0 = (1, 0)
      \<and> numalloc_free s1 env_one_node 0 p = Some s2
      \<and> numalloc_get_thread_stats s2 0 = (1, 0)"
proof -
  let ?p = "1073741840 :: addr"
  obtain s1 where n: "numalloc state_one_node env_one_node 0 4096 = Some (s1, ?p)"
    and s1: "s1 = set_arena
             (state_one_node\<lparr>my_arena := (\<lambda>t. None)(0 := Some (arena_fresh 0)),
                mapped := [(1073741824, page_round (unat (4112 :: size_t))), (268435456, 1048576)],
                mem := store_bytes
                     (memset_mem (mem state_one_node) 1073741824 0 4112)
                     1073741824
                     (header_bytes \<lparr> hdr_size = 4112, hdr_size_class = - 1,
                                     hdr_numa_node = 0 \<rparr>)\<rparr>)
             0 ((arena_fresh 0)\<lparr>stats_allocs := 1\<rparr>)"
    using numalloc_one_node_large[of 4096]
    by (simp add: large_block_length_4096)
  have pr: "page_round 4112 = 8192"
    by (simp add: page_round_def OS_PAGE_SIZE_def)
  have rh: "read_header s1 (?p - HEADER_SIZE)
      = Some \<lparr> hdr_size = 4112, hdr_size_class = - 1, hdr_numa_node = 0 \<rparr>"
    by (rule read_header_one_node_large[where l=8192 and rest="[(268435456, 1048576)]"])
       (simp_all add: s1 pr int32_def)
  have st1: "numalloc_get_thread_stats s1 0 = (1, 0)"
    by (simp add: numalloc_get_thread_stats_def s1 arena_fresh_def)
  have fr: "numalloc_free s1 env_one_node 0 ?p = Some (s1\<lparr>mapped := [(268435456, 1048576)]\<rparr>)"
    using rh by (simp add: numalloc_free_def free_large_block_def NULL_def os_munmap_def pr)
       (simp add: s1 pr HEADER_SIZE_def)
  have st2: "numalloc_get_thread_stats (s1\<lparr>mapped := [(268435456, 1048576)]\<rparr>) 0 = (1, 0)"
    by (simp add: numalloc_get_thread_stats_def s1 arena_fresh_def)
  show ?thesis using n st1 fr st2 by (auto simp: NULL_def)
qed

lemma large_block_length_wrap: "large_block_length 18446744073709551606 = 6"
  by (simp add: large_block_length_def HEADER_SIZE_def HUGE_PAGE_SIZE_def)

text \<open>
  C6 fails on the code when \<open>num * size\<close> does not overflow but
  \<open>num * size + sizeof(block_header_t)\<close> does.  For one element of
  \<open>2^64 - 10\<close> bytes \<open>numalloc\<close> maps 6 bytes and returns a non-null pointer, and
  the \<open>memset\<close> of \<open>numalloc_calloc\<close> over \<open>2^64 - 10\<close> bytes leaves the mapping.
\<close>

theorem C6_calloc_header_overflow:
  "\<exists>s1 p. numalloc state_one_node env_one_node 0 18446744073709551606 = Some (s1, p)
      \<and> p \<noteq> NULL
      \<and> map_option hdr_size (read_header s1 (p - HEADER_SIZE)) = Some 6
      \<and> numalloc_calloc state_one_node env_one_node 0 1 18446744073709551606 = None"
proof -
  let ?p = "1073741840 :: addr"
  let ?n = "18446744073709551606 :: size_t"
  obtain s1 where n: "numalloc state_one_node env_one_node 0 ?n = Some (s1, ?p)"
    and s1: "s1 = set_arena
             (state_one_node\<lparr>my_arena := (\<lambda>t. None)(0 := Some (arena_fresh 0)),
                mapped := [(1073741824, page_round (unat (6 :: size_t))), (268435456, 1048576)],
                mem := store_bytes
                     (memset_mem (mem state_one_node) 1073741824 0 6)
                     1073741824
                     (header_bytes \<lparr> hdr_size = 6, hdr_size_class = - 1,
                                     hdr_numa_node = 0 \<rparr>)\<rparr>)
             0 ((arena_fresh 0)\<lparr>stats_allocs := 1\<rparr>)"
    using numalloc_one_node_large[of ?n]
    by (simp add: large_block_length_wrap)
  have pr: "page_round 6 = 4096"
    by (simp add: page_round_def OS_PAGE_SIZE_def)
  have rh: "read_header s1 (?p - HEADER_SIZE)
      = Some \<lparr> hdr_size = 6, hdr_size_class = - 1, hdr_numa_node = 0 \<rparr>"
    by (rule read_header_one_node_large[where l=4096 and rest="[(268435456, 1048576)]"])
       (simp_all add: s1 pr int32_def)
  have na: "\<not> accessible s1 ?p (unat ?n)"
    by (simp add: accessible_def)
  have "numalloc_calloc state_one_node env_one_node 0 1 ?n = None"
    using n na by (simp add: numalloc_calloc_def memset_def NULL_def)
  then show ?thesis using n rh by (auto simp: NULL_def)
qed

lemma large_block_length_2m: "large_block_length 2097136 = 2097152"
  by (simp add: large_block_length_def HEADER_SIZE_def HUGE_PAGE_SIZE_def)

text \<open>
  C4 fails on the code when a large block grows.  The capacity that \<open>numalloc_realloc\<close>
  reads from the header of a large block is the length of the whole mapping, header
  included, so the \<open>memcpy\<close> from the user pointer reads 16 bytes past the end of the
  mapping.  Here a block of \<open>2 MiB - 16\<close> bytes (a mapping of exactly 2 MiB) is
  resized to \<open>2 MiB + 1\<close> bytes.
\<close>

theorem C4_realloc_large_reads_past_mapping:
  "\<exists>s1 p. numalloc state_one_node env_one_node 0 2097136 = Some (s1, p) \<and> p \<noteq> NULL
      \<and> read_header s1 (p - HEADER_SIZE)
            = Some \<lparr> hdr_size = 2097152, hdr_size_class = - 1, hdr_numa_node = 0 \<rparr>
      \<and> numalloc_realloc s1 (env_one_node\<lparr>mmap_anon := Some 2147483648\<rparr>) 0 p 2097153 = None"
proof -
  let ?p = "1073741840 :: addr"
  let ?e = "env_one_node\<lparr>mmap_anon := Some 2147483648\<rparr>"
  let ?a1 = "(arena_fresh 0)\<lparr>stats_allocs := 1\<rparr>"
  obtain s1 where n: "numalloc state_one_node env_one_node 0 2097136 = Some (s1, ?p)"
    and s1: "s1 = set_arena
             (state_one_node\<lparr>my_arena := (\<lambda>t. None)(0 := Some (arena_fresh 0)),
                mapped := [(1073741824, page_round (unat (2097152 :: size_t))), (268435456, 1048576)],
                mem := store_bytes
                     (memset_mem (mem state_one_node) 1073741824 0 2097152)
                     1073741824
                     (header_bytes \<lparr> hdr_size = 2097152, hdr_size_class = - 1,
                                     hdr_numa_node = 0 \<rparr>)\<rparr>)
             0 ?a1"
    using numalloc_one_node_large[of 2097136]
    by (simp add: large_block_length_2m)
  have pr: "page_round 2097152 = 2097152" "page_round 4194304 = 4194304"
    by (simp_all add: page_round_def OS_PAGE_SIZE_def)
  have mp: "mapped s1 = [(1073741824, 2097152), (268435456, 1048576)]"
    by (simp add: s1 pr)
  have rh: "read_header s1 (?p - HEADER_SIZE)
      = Some \<lparr> hdr_size = 2097152, hdr_size_class = - 1, hdr_numa_node = 0 \<rparr>"
    by (rule read_header_one_node_large[where l=2097152 and rest="[(268435456, 1048576)]"])
       (simp_all add: s1 pr int32_def)
  have g: "g_initialized s1" by (simp add: s1 state_one_node_def)
  have ga: "get_or_create_arena s1 ?e 0 = Some (s1, Some ?a1)"
    by (simp add: get_or_create_arena_def s1)
  have mm: "large_block_mmap s1 ?e 4194304
      = Some (s1\<lparr>mapped := (2147483648, 4194304) # mapped s1\<rparr>, 2147483648)"
    by (simp add: large_block_mmap_def HUGE_PAGE_SIZE_def os_mmap_def env_one_node_def NULL_def
        pr region_free_def mp)
  obtain s2 where n2: "numalloc s1 ?e 0 2097153 = Some (s2, 2147483664)"
    and mp2: "mapped s2 = [(2147483648, 4194304), (1073741824, 2097152), (268435456, 1048576)]"
    by (simp add: numalloc_large[OF g _ ga] large_block_length_2m1 mm HEADER_SIZE_def mp)
  have na: "\<not> accessible s2 ?p 2097152"
    by (simp add: accessible_def mp2 in_range_def)
  have "numalloc_realloc s1 ?e 0 ?p 2097153 = None"
    using rh n2 na by (simp add: numalloc_realloc_def NULL_def memcpy_def)
  then show ?thesis using n rh by (auto simp: NULL_def)
qed


section \<open>The slow path\<close>

lemma same_outside_refl [simp]: "same_outside m m lo hi"
  by (simp add: same_outside_def)

lemma same_outside_trans:
  "same_outside m m' lo hi \<Longrightarrow> same_outside m' m'' lo hi \<Longrightarrow> same_outside m m'' lo hi"
  by (simp add: same_outside_def)

lemma same_outside_mono:
  "same_outside m m' lo hi \<Longrightarrow> lo' \<le> lo \<Longrightarrow> hi \<le> hi' \<Longrightarrow> same_outside m m' lo' hi'"
  by (auto simp: same_outside_def)

lemma accessible_sub:
  assumes "accessible s a n" and "unat a \<le> unat x" and "unat x + k \<le> unat a + n"
  shows "accessible s x k"
proof -
  from assms(1) obtain r where r: "r \<in> set (mapped s)" "in_range r a n" and w: "unat a + n \<le> 2 ^ 64"
    by (auto simp: accessible_def list_ex_iff)
  have "in_range r x k" using r(2) assms(2,3) by (simp add: in_range_def)
  moreover have "unat x + k \<le> 2 ^ 64" using w assms(3) by linarith
  ultimately show ?thesis using r(1) by (auto simp: accessible_def list_ex_iff)
qed

lemma accessible_no_wrap: "accessible s a n \<Longrightarrow> unat a + n \<le> 2 ^ 64"
  by (simp add: accessible_def)

text \<open>Addresses inside a batch.\<close>

lemma mult_step_le: "k < i \<Longrightarrow> k * n + n \<le> i * (n::nat)"
proof -
  assume "k < i"
  then have "Suc k \<le> i" by simp
  then have "Suc k * n \<le> i * n" by (rule mult_le_mono1)
  then show ?thesis by simp
qed

lemma unat_add_nowrap:
  fixes a b :: addr
  assumes "unat a + unat b < 2 ^ 64"
  shows "unat (a + b) = unat a + unat b"
proof -
  have "unat a + unat b < 2 ^ LENGTH(64)" using assms by simp
  then show ?thesis by (rule unat_add_lem[THEN iffD1])
qed

lemma unat_block_base:
  fixes bs st :: addr
  assumes "unat bs + 64 * unat st \<le> 2 ^ 64" and "k < 64"
  shows "unat (bs + of_nat k * st) = unat bs + k * unat st"
proof -
  have N: "(2::nat) ^ 64 = 18446744073709551616" by simp
  have le: "k * unat st + unat st \<le> 64 * unat st" using assms(2) by (rule mult_step_le)
  have k: "unat (of_nat k :: addr) = k" using assms(2) by (intro unat_of_nat64) simp
  have bs: "unat bs < 18446744073709551616" using unsigned_less[of bs, where 'a=nat] by simp
  have "k * unat st < 18446744073709551616" using le assms(1) unfolding N by linarith
  then have "unat (of_nat k :: addr) * unat st < 2 ^ 64" using k by simp
  then have m: "unat (of_nat k * st) = k * unat st"
    using k by (simp add: unat_mult_lem[THEN iffD1])
  have "unat bs + k * unat st < 18446744073709551616"
    using le assms(1) bs unfolding N by linarith
  then have "unat bs + unat (of_nat k * st) < 2 ^ 64" using m by simp
  then show ?thesis using m by (simp add: unat_add_lem[THEN iffD1])
qed

lemma unat_batch_block:
  fixes bs st :: addr
  assumes "unat bs + 64 * unat st \<le> 2 ^ 64" and "k < 64" and "24 \<le> unat st"
  shows "unat (batch_block bs st k) = unat bs + k * unat st + 16"
    and "batch_block bs st k - HEADER_SIZE = bs + of_nat k * st"
proof -
  have le: "k * unat st + unat st \<le> 64 * unat st" using assms(2) by (rule mult_step_le)
  have b: "unat (bs + of_nat k * st) = unat bs + k * unat st"
    using assms(1,2) by (rule unat_block_base)
  have N: "(2::nat) ^ 64 = 18446744073709551616" by simp
  have "unat (bs + of_nat k * st) + 16 < 2 ^ 64" using b le assms(1,3) unfolding N by linarith
  then show "unat (batch_block bs st k) = unat bs + k * unat st + 16"
    using unat_plus_of_nat[of "bs + of_nat k * st" 16] b
    by (simp add: batch_block_def HEADER_SIZE_def)
  show "batch_block bs st k - HEADER_SIZE = bs + of_nat k * st"
    by (simp add: batch_block_def)
qed

lemma carve_batch_done:
  "\<not> i < REFILL_BATCH_SIZE \<Longrightarrow> carve_batch s bs st h i head = Some (s, head)"
  by (subst carve_batch.simps) simp

lemma carve_batch_step:
  assumes "i < REFILL_BATCH_SIZE"
    and "accessible s (bs + of_nat i * st) 16"
    and "accessible s (bs + of_nat i * st + HEADER_SIZE) 8"
  shows "carve_batch s bs st h i head =
     carve_batch (s\<lparr>mem := store_bytes (store_bytes (mem s) (bs + of_nat i * st) (header_bytes h))
                                (bs + of_nat i * st + HEADER_SIZE) (le_bytes 8 head)\<rparr>)
        bs st h (Suc i) (bs + of_nat i * st + HEADER_SIZE)"
  using assms
  by (subst carve_batch.simps) (simp add: Let_def write_header_def write_next_def)

text \<open>The memory after one iteration of the loop: a header and the link behind it.\<close>

lemma carve_block_mem:
  fixes a :: addr and m :: "addr \<Rightarrow> byte" and v :: addr
  assumes "unat a + 24 \<le> 2 ^ 64"
    and "int32 (hdr_size_class h)" and "int32 (hdr_numa_node h)"
    and m2: "m2 = store_bytes (store_bytes m a (header_bytes h)) (a + HEADER_SIZE) (le_bytes 8 v)"
  shows "same_outside m m2 (unat a) (unat a + 24)"
    and "header_at m2 a = h"
    and "next_at m2 (a + HEADER_SIZE) = v"
proof -
  let ?m1 = "store_bytes m a (header_bytes h)"
  have b: "unat (a + HEADER_SIZE) = unat a + 16"
    using unat_plus_of_nat[of a 16] assms(1) by (simp add: HEADER_SIZE_def)
  have 1: "same_outside m ?m1 (unat a) (unat a + 16)"
    using store_bytes_outside[of a "header_bytes h" m] assms(1) by simp
  have "same_outside ?m1 m2 (unat (a + HEADER_SIZE))
          (unat (a + HEADER_SIZE) + length (le_bytes 8 v))"
    unfolding m2 using assms(1) b by (intro store_bytes_outside) simp
  then have 2: "same_outside ?m1 m2 (unat a + 16) (unat a + 24)"
    by (rule same_outside_mono) (simp_all add: b)
  show "same_outside m m2 (unat a) (unat a + 24)"
    by (rule same_outside_trans[OF same_outside_mono[OF 1] same_outside_mono[OF 2]]) simp_all
  have "header_at m2 a = header_at ?m1 a"
    using assms(1) by (intro header_at_same_outside[OF 2]) simp_all
  then show "header_at m2 a = h" using assms(2,3) by (simp add: header_at_store)
  show "next_at m2 (a + HEADER_SIZE) = v" by (simp add: m2 next_at_store)
qed

text \<open>
  The loop from iteration \<open>i\<close> on: it is defined inside the batch, changes only the part
  of the batch from block \<open>i\<close> on, leaves header \<open>h\<close> on every block it visits, and links
  each block to the one carved before it.
\<close>

lemma carve_batch_inv:
  fixes bs st :: addr
  assumes "accessible s bs (64 * unat st)" and "24 \<le> unat st"
    and "int32 (hdr_size_class h)" and "int32 (hdr_numa_node h)"
    and "i \<le> 64"
  shows "\<exists>m'. carve_batch s bs st h i head
            = Some (s\<lparr>mem := m'\<rparr>, if i < 64 then batch_block bs st 63 else head)
      \<and> same_outside (mem s) m' (unat bs + i * unat st) (unat bs + 64 * unat st)
      \<and> (\<forall>k. i \<le> k \<and> k < 64 \<longrightarrow>
            header_at m' (bs + of_nat k * st) = h
          \<and> next_at m' (batch_block bs st k)
              = (if k = i then head else batch_block bs st (k - 1)))"
  using assms
proof (induction "64 - i" arbitrary: i s head)
  case 0
  then have i: "i = 64" by simp
  have "carve_batch s bs st h i head = Some (s\<lparr>mem := mem s\<rparr>, head)"
    using i by (simp add: carve_batch_done REFILL_BATCH_SIZE_def)
  moreover have "\<forall>k. i \<le> k \<and> k < 64 \<longrightarrow>
            header_at (mem s) (bs + of_nat k * st) = h
          \<and> next_at (mem s) (batch_block bs st k)
              = (if k = i then head else batch_block bs st (k - 1))"
    using i by (intro allI impI) linarith
  ultimately show ?case using i by (intro exI[of _ "mem s"]) simp
next
  case (Suc n)
  then have i: "i < 64" by simp
  let ?a = "bs + of_nat i * st"
  let ?b = "?a + HEADER_SIZE"
  let ?e = "unat bs + 64 * unat st"
  define m2 where "m2 = store_bytes (store_bytes (mem s) ?a (header_bytes h)) ?b (le_bytes 8 head)"
  have nw: "?e \<le> 2 ^ 64" using Suc.prems(1) by (rule accessible_no_wrap)
  have ua: "unat ?a = unat bs + i * unat st" using nw i by (rule unat_block_base)
  have le: "i * unat st + unat st \<le> 64 * unat st" using i by (rule mult_step_le)
  have nx: "unat bs + Suc i * unat st = unat ?a + unat st" using ua by simp
  have a24: "unat ?a + 24 \<le> unat bs + Suc i * unat st" using nx Suc.prems(2) by linarith
  have ae: "unat bs + Suc i * unat st \<le> ?e" using nx ua le by linarith
  have a24': "unat ?a + 24 \<le> 2 ^ 64" using a24 ae nw by linarith
  have bb: "?b = batch_block bs st i" by (simp add: batch_block_def)
  have ub: "unat ?b = unat ?a + 16"
    using unat_plus_of_nat[of ?a 16] a24' by (simp add: HEADER_SIZE_def)
  have acc_a: "accessible s ?a 16"
    using Suc.prems(1) by (rule accessible_sub) (use ua a24 ae in linarith)+
  have acc_b: "accessible s ?b 8"
    using Suc.prems(1) by (rule accessible_sub) (use ua ub a24 ae in linarith)+
  have step: "carve_batch s bs st h i head = carve_batch (s\<lparr>mem := m2\<rparr>) bs st h (Suc i) ?b"
    unfolding m2_def using i acc_a acc_b
    by (intro carve_batch_step) (simp_all add: REFILL_BATCH_SIZE_def)
  note blk = carve_block_mem[OF a24' Suc.prems(3,4) m2_def]
  have "\<exists>m'. carve_batch (s\<lparr>mem := m2\<rparr>) bs st h (Suc i) ?b
            = Some (s\<lparr>mem := m2\<rparr>\<lparr>mem := m'\<rparr>, if Suc i < 64 then batch_block bs st 63 else ?b)
      \<and> same_outside (mem (s\<lparr>mem := m2\<rparr>)) m' (unat bs + Suc i * unat st) ?e
      \<and> (\<forall>k. Suc i \<le> k \<and> k < 64 \<longrightarrow>
            header_at m' (bs + of_nat k * st) = h
          \<and> next_at m' (batch_block bs st k)
              = (if k = Suc i then ?b else batch_block bs st (k - 1)))"
  proof (rule Suc.hyps(1))
    show "n = 64 - Suc i" using Suc.hyps(2) by simp
    show "accessible (s\<lparr>mem := m2\<rparr>) bs (64 * unat st)" using Suc.prems(1) by simp
    show "24 \<le> unat st" by (rule Suc.prems(2))
    show "int32 (hdr_size_class h)" by (rule Suc.prems(3))
    show "int32 (hdr_numa_node h)" by (rule Suc.prems(4))
    show "Suc i \<le> 64" using i by simp
  qed
  then obtain m' where
    run: "carve_batch (s\<lparr>mem := m2\<rparr>) bs st h (Suc i) ?b
            = Some (s\<lparr>mem := m'\<rparr>, if Suc i < 64 then batch_block bs st 63 else ?b)"
    and so: "same_outside m2 m' (unat bs + Suc i * unat st) ?e"
    and rest: "\<And>k. Suc i \<le> k \<Longrightarrow> k < 64 \<Longrightarrow>
            header_at m' (bs + of_nat k * st) = h
          \<and> next_at m' (batch_block bs st k)
              = (if k = Suc i then ?b else batch_block bs st (k - 1))"
    by auto
  have last: "(if Suc i < 64 then batch_block bs st 63 else ?b) = batch_block bs st 63"
  proof (cases "Suc i < 64")
    case True then show ?thesis by simp
  next
    case False
    then have "i = 63" using i by simp
    then show ?thesis using bb by simp
  qed
  have r1: "carve_batch s bs st h i head
            = Some (s\<lparr>mem := m'\<rparr>, if i < 64 then batch_block bs st 63 else head)"
    using step run last i by simp
  have r2: "same_outside (mem s) m' (unat bs + i * unat st) ?e"
  proof (rule same_outside_trans)
    show "same_outside (mem s) m2 (unat bs + i * unat st) ?e"
      using blk(1) by (rule same_outside_mono) (use ua a24 ae in linarith)+
    show "same_outside m2 m' (unat bs + i * unat st) ?e"
      using so by (rule same_outside_mono) (use nx ua in linarith)+
  qed
  have hi: "header_at m' ?a = h"
  proof -
    have "header_at m' ?a = header_at m2 ?a"
      using so by (rule header_at_same_outside) (use a24 a24' in linarith)+
    then show ?thesis using blk(2) by simp
  qed
  have ni: "next_at m' ?b = head"
  proof -
    have "next_at m' ?b = next_at m2 ?b"
      using so by (rule next_at_same_outside) (use ub a24 a24' in linarith)+
    then show ?thesis using blk(3) by simp
  qed
  have r3: "\<forall>k. i \<le> k \<and> k < 64 \<longrightarrow>
            header_at m' (bs + of_nat k * st) = h
          \<and> next_at m' (batch_block bs st k)
              = (if k = i then head else batch_block bs st (k - 1))"
  proof (intro allI impI)
    fix k assume k: "i \<le> k \<and> k < 64"
    show "header_at m' (bs + of_nat k * st) = h
          \<and> next_at m' (batch_block bs st k)
              = (if k = i then head else batch_block bs st (k - 1))"
    proof (cases "k = i")
      case True
      then show ?thesis using hi ni bb by simp
    next
      case False
      then have "Suc i \<le> k" using k by simp
      from rest[OF this] k have
        "header_at m' (bs + of_nat k * st) = h"
        "next_at m' (batch_block bs st k)
              = (if k = Suc i then ?b else batch_block bs st (k - 1))" by simp_all
      moreover have "k = Suc i \<Longrightarrow> ?b = batch_block bs st (k - 1)" using bb by simp
      ultimately show ?thesis using False by simp
    qed
  qed
  show ?case using r1 r2 r3 by blast
qed

lemma size_class_sizes_bounds:
  assumes "idx SIZE_CLASS_SIZES cls = Some block_size"
  shows "0 \<le> cls" and "cls < 8" and "block_size = SIZE_CLASS_SIZES ! nat cls"
    and "16 \<le> unat block_size" and "unat block_size \<le> 2048"
proof -
  show c: "0 \<le> cls" "cls < 8" and b: "block_size = SIZE_CLASS_SIZES ! nat cls"
    using assms by (auto simp: idx_def SIZE_CLASS_SIZES_def split: if_splits)
  have "\<forall>i<8. 16 \<le> unat (SIZE_CLASS_SIZES ! i) \<and> unat (SIZE_CLASS_SIZES ! i) \<le> 2048"
    by (simp add: all_less_numeral SIZE_CLASS_SIZES_def)
  moreover have "nat cls < 8" using c by simp
  ultimately show "16 \<le> unat block_size" and "unat block_size \<le> 2048"
    using b by blast+
qed

lemma unat_stride:
  fixes block_size :: size_t
  assumes "unat block_size \<le> 2048"
  shows "unat (block_size + HEADER_SIZE) = unat block_size + 16"
    and "unat ((block_size + HEADER_SIZE) * of_nat REFILL_BATCH_SIZE) = 64 * (unat block_size + 16)"
proof -
  show 1: "unat (block_size + HEADER_SIZE) = unat block_size + 16"
    using unat_plus_of_nat[of block_size 16] assms by (simp add: HEADER_SIZE_def)
  have "unat (block_size + HEADER_SIZE) * unat (64 :: addr) < 2 ^ LENGTH(64)"
    using 1 assms by simp
  then have "unat ((block_size + HEADER_SIZE) * 64) = unat (block_size + HEADER_SIZE) * unat (64 :: addr)"
    by (rule unat_mult_lem[THEN iffD1])
  then show "unat ((block_size + HEADER_SIZE) * of_nat REFILL_BATCH_SIZE) = 64 * (unat block_size + 16)"
    using 1 by (simp add: REFILL_BATCH_SIZE_def)
qed

lemma chain_list_null: "chain_list m NULL n = Some []"
  by (cases n) simp_all

text \<open>Blocks linked each to the one before it, the first to null, are a stack.\<close>

lemma chain_list_batch:
  assumes "\<And>k. k < j \<Longrightarrow> blk k \<noteq> NULL"
    and "\<And>k. k < j \<Longrightarrow> next_at m (blk k) = (if k = 0 then NULL else blk (k - 1))"
    and "j \<le> n"
  shows "chain_list m (if j = 0 then NULL else blk (j - 1)) n = Some (map blk (rev [0..<j]))"
  using assms
proof (induction j arbitrary: n)
  case 0
  then show ?case by (simp add: chain_list_null)
next
  case (Suc j)
  then obtain n' where n: "n = Suc n'" and jn: "j \<le> n'" by (cases n) auto
  have "chain_list m (if j = 0 then NULL else blk (j - 1)) n' = Some (map blk (rev [0..<j]))"
    using Suc.prems(1,2) jn by (intro Suc.IH) simp_all
  moreover have "next_at m (blk j) = (if j = 0 then NULL else blk (j - 1))"
    using Suc.prems(2)[of j] by simp
  moreover have "blk j \<noteq> NULL" using Suc.prems(1)[of j] by simp
  ultimately show ?case using n by simp
qed

lemma accessible_pools_update [simp]:
  "accessible (s\<lparr>g_node_pools := ps\<rparr>) a n = accessible s a n"
  by (simp add: accessible_def)

text \<open>
  The slow path for a small class on a pool with room for a batch: its result, and the
  memory it leaves.
\<close>

lemma slow_path_small:
  assumes arena: "my_arena s t = Some arena"
    and pool: "idx (g_node_pools s) (numa_node arena) = Some (Some pool)"
    and bsz: "idx SIZE_CLASS_SIZES cls = Some block_size"
    and acc: "accessible s (base_addr pool) (unat (total_size pool))"
    and room: "unat (used pool) + 64 * (unat block_size + 16) \<le> unat (total_size pool)"
    and node: "int32 (numa_node arena)"
    and bs: "bs = base_addr pool + used pool"
    and st: "st = block_size + HEADER_SIZE"
    and h: "h = \<lparr> hdr_size = block_size, hdr_size_class = cls, hdr_numa_node = numa_node arena \<rparr>"
  shows "\<exists>m'. slow_path_alloc s e t sz cls
           = Some (set_arena
                    (s\<lparr>g_node_pools := (g_node_pools s)
                         [nat (numa_node arena) :=
                            Some (pool\<lparr>used := used pool + st * of_nat REFILL_BATCH_SIZE\<rparr>)],
                       mem := m'\<rparr>) t
                    (arena\<lparr>free_lists := (free_lists arena)[nat cls := batch_block bs st 62]\<rparr>),
                   batch_block bs st 63)
      \<and> same_outside (mem s) m' (unat bs) (unat bs + 64 * unat st)
      \<and> (\<forall>k. k < 64 \<longrightarrow>
            header_at m' (bs + of_nat k * st) = h
          \<and> next_at m' (batch_block bs st k)
              = (if k = 0 then NULL else batch_block bs st (k - 1)))"
proof -
  note szb = size_class_sizes_bounds[OF bsz]
  note ust = unat_stride[OF szb(5)]
  let ?tn = "(block_size + HEADER_SIZE) * of_nat REFILL_BATCH_SIZE"
  let ?s1 = "s\<lparr>g_node_pools := (g_node_pools s)
                 [nat (numa_node arena) := Some (pool\<lparr>used := used pool + ?tn\<rparr>)]\<rparr>"
  have nw: "unat (base_addr pool) + unat (total_size pool) \<le> 2 ^ 64"
    using acc by (rule accessible_no_wrap)
  have tot: "unat (total_size pool) < 2 ^ 64"
    using unsigned_less[of "total_size pool", where 'a=nat] by simp
  have N: "(2::nat) ^ 64 = 18446744073709551616" by simp
  have "unat (used pool) + unat ?tn < 2 ^ 64" using room tot ust(2) by linarith
  then have "unat (used pool + ?tn) = unat (used pool) + unat ?tn"
    by (rule unat_add_nowrap)
  then have utn: "unat (used pool + ?tn) = unat (used pool) + 64 * (unat block_size + 16)"
    by (simp only: ust(2))
  have chk: "\<not> used pool + ?tn > total_size pool"
    using utn room by (simp add: word_less_nat_alt)
  have "unat (used pool) < unat (total_size pool)" using room by simp
  then have "unat (base_addr pool) + unat (used pool) < 2 ^ 64"
    using nw by simp
  then have ubs: "unat bs = unat (base_addr pool) + unat (used pool)"
    unfolding bs by (rule unat_add_nowrap)
  have ust': "unat st = unat block_size + 16" unfolding st by (rule ust(1))
  have st24: "24 \<le> unat st" using ust' szb(4) by linarith
  have "accessible s bs (64 * unat st)"
    using acc by (rule accessible_sub) (use ubs ust' room in simp_all)
  then have acc1: "accessible ?s1 bs (64 * unat st)" by simp
  have h32: "int32 (hdr_size_class h)" "int32 (hdr_numa_node h)"
    using szb(1,2) node by (simp_all add: h int32_def)
  obtain m' where
    run: "carve_batch ?s1 bs st h 0 NULL = Some (?s1\<lparr>mem := m'\<rparr>, batch_block bs st 63)"
    and so: "same_outside (mem s) m' (unat bs) (unat bs + 64 * unat st)"
    and blocks: "\<forall>k. 0 \<le> k \<and> k < 64 \<longrightarrow>
            header_at m' (bs + of_nat k * st) = h
          \<and> next_at m' (batch_block bs st k)
              = (if k = 0 then NULL else batch_block bs st (k - 1))"
    using carve_batch_inv[OF acc1 st24 h32, of 0 NULL] by auto
  have nw': "unat bs + 64 * unat st \<le> 2 ^ 64" using acc1 by (rule accessible_no_wrap)
  have u63: "unat (batch_block bs st 63) = unat bs + 63 * unat st + 16"
    using nw' _ st24 by (rule unat_batch_block(1)) simp
  have "accessible ?s1 (batch_block bs st 63) 8"
    using acc1 by (rule accessible_sub) (use u63 st24 in simp_all)
  then have "accessible (?s1\<lparr>mem := m'\<rparr>) (batch_block bs st 63) 8"
    by (simp only: accessible_mem_update)
  then have rn: "read_next (?s1\<lparr>mem := m'\<rparr>) (batch_block bs st 63) = Some (batch_block bs st 62)"
    using blocks by (simp add: read_next_def)
  have "slow_path_alloc s e t sz cls
           = Some (set_arena (?s1\<lparr>mem := m'\<rparr>) t
                    (arena\<lparr>free_lists := (free_lists arena)[nat cls := batch_block bs st 62]\<rparr>),
                   batch_block bs st 63)"
    unfolding slow_path_alloc_def
    using arena pool bsz szb(1) chk run rn by (simp add: Let_def bs[symmetric] st[symmetric] h[symmetric])
  then show ?thesis using so blocks unfolding st by (intro exI[of _ m']) simp
qed

lemma batch_block_inj:
  fixes bs st :: addr
  assumes "unat bs + 64 * unat st \<le> 2 ^ 64" and "24 \<le> unat st"
    and "j < 64" and "k < 64" and "batch_block bs st j = batch_block bs st k"
  shows "j = k"
proof -
  have j: "unat (batch_block bs st j) = unat bs + j * unat st + 16"
    using assms(1) assms(3) assms(2) by (rule unat_batch_block(1))
  have k: "unat (batch_block bs st k) = unat bs + k * unat st + 16"
    using assms(1) assms(4) assms(2) by (rule unat_batch_block(1))
  have "unat bs + j * unat st + 16 = unat bs + k * unat st + 16"
    using j k by (simp only: assms(5))
  then have "j * unat st = k * unat st" by simp
  then show ?thesis using assms(2) by simp
qed

lemma batch_block_not_null:
  fixes bs st :: addr
  assumes "unat bs + 64 * unat st \<le> 2 ^ 64" and "24 \<le> unat st" and "k < 64"
  shows "batch_block bs st k \<noteq> NULL"
proof
  assume "batch_block bs st k = NULL"
  then have "unat (batch_block bs st k) = 0" by (simp add: NULL_def)
  then show False using unat_batch_block(1)[OF assms(1) assms(3) assms(2)] by simp
qed

text \<open>
  Claim C5.  On a miss for the small class \<open>cls\<close>, when the pool of the arena's node has
  room for a batch, \<open>slow_path_alloc\<close> takes the 64 blocks of
  \<open>block_size + HEADER_SIZE\<close> bytes that follow the used part of the pool, one after the
  other, and advances \<open>used\<close> past them.  The header of each of the 64 blocks has the
  size of the class, the class and the node of the arena.  The call returns block 63;
  the list of the class then starts at block 62 and holds the blocks 62 down to 0 and
  no other, so the returned block is not on it.
\<close>

theorem C5_slow_path_batch:
  assumes "my_arena s t = Some arena"
    and "length (g_node_pools s) = MAX_NUMA_NODES"
    and "idx (g_node_pools s) (numa_node arena) = Some (Some pool)"
    and "idx SIZE_CLASS_SIZES cls = Some block_size"
    and "accessible s (base_addr pool) (unat (total_size pool))"
    and "unat (used pool) + 64 * (unat block_size + 16) \<le> unat (total_size pool)"
    and "length (free_lists arena) = SIZE_CLASSES"
  shows "\<exists>s' arena'.
        slow_path_alloc s e t sz cls = Some (s', pool_block pool block_size 63)
      \<and> (\<forall>k<64. unat (pool_block pool block_size k)
             = unat (base_addr pool) + unat (used pool) + k * (unat block_size + 16) + 16)
      \<and> idx (g_node_pools s') (numa_node arena)
          = Some (Some (pool\<lparr>used := used pool + (block_size + HEADER_SIZE) * 64\<rparr>))
      \<and> (\<forall>k<64. header_at (mem s') (pool_block pool block_size k - HEADER_SIZE)
             = \<lparr> hdr_size = block_size, hdr_size_class = cls,
                 hdr_numa_node = numa_node arena \<rparr>)
      \<and> my_arena s' t = Some arena'
      \<and> free_lists arena' ! nat cls = pool_block pool block_size 62
      \<and> chain_list (mem s') (free_lists arena' ! nat cls) 63
          = Some (map (pool_block pool block_size) (rev [0..<63]))
      \<and> pool_block pool block_size 63 \<notin> set (map (pool_block pool block_size) (rev [0..<63]))"
proof -
  define bs where "bs = base_addr pool + used pool"
  define st where "st = block_size + HEADER_SIZE"
  define h where "h = \<lparr> hdr_size = block_size, hdr_size_class = cls,
                          hdr_numa_node = numa_node arena \<rparr>"
  have pb: "pool_block pool block_size = batch_block bs st"
    by (rule ext) (simp add: pool_block_def bs_def st_def)
  note szb = size_class_sizes_bounds[OF assms(4)]
  have ust: "unat st = unat block_size + 16" unfolding st_def by (rule unat_stride(1)[OF szb(5)])
  have st24: "24 \<le> unat st" using ust szb(4) by simp
  have nw: "unat (base_addr pool) + unat (total_size pool) \<le> 2 ^ 64"
    using assms(5) by (rule accessible_no_wrap)
  have "unat (used pool) < unat (total_size pool)" using assms(6) by simp
  then have "unat (base_addr pool) + unat (used pool) < 2 ^ 64" using nw by simp
  then have ubs: "unat bs = unat (base_addr pool) + unat (used pool)"
    unfolding bs_def by (rule unat_add_nowrap)
  have nw': "unat bs + 64 * unat st \<le> 2 ^ 64" using ubs ust nw assms(6) by simp
  have nd: "0 \<le> numa_node arena" "numa_node arena < 8"
    using assms(2,3) by (auto simp: idx_def MAX_NUMA_NODES_def split: if_splits)
  then have n32: "int32 (numa_node arena)" by (simp add: int32_def)
  obtain m' where
    run: "slow_path_alloc s e t sz cls
           = Some (set_arena
                    (s\<lparr>g_node_pools := (g_node_pools s)
                         [nat (numa_node arena) :=
                            Some (pool\<lparr>used := used pool + st * of_nat REFILL_BATCH_SIZE\<rparr>)],
                       mem := m'\<rparr>) t
                    (arena\<lparr>free_lists := (free_lists arena)[nat cls := batch_block bs st 62]\<rparr>),
                   batch_block bs st 63)"
    and blocks: "\<And>k. k < 64 \<Longrightarrow>
            header_at m' (bs + of_nat k * st) = h
          \<and> next_at m' (batch_block bs st k)
              = (if k = 0 then NULL else batch_block bs st (k - 1))"
    using slow_path_small[OF assms(1,3,4,5,6) n32 bs_def st_def h_def, of e sz] by blast
  let ?s' = "set_arena
                    (s\<lparr>g_node_pools := (g_node_pools s)
                         [nat (numa_node arena) :=
                            Some (pool\<lparr>used := used pool + st * of_nat REFILL_BATCH_SIZE\<rparr>)],
                       mem := m'\<rparr>) t
                    (arena\<lparr>free_lists := (free_lists arena)[nat cls := batch_block bs st 62]\<rparr>)"
  let ?arena' = "arena\<lparr>free_lists := (free_lists arena)[nat cls := batch_block bs st 62]\<rparr>"
  have c1: "slow_path_alloc s e t sz cls = Some (?s', pool_block pool block_size 63)"
    using run pb by simp
  have c2: "\<forall>k<64. unat (pool_block pool block_size k)
             = unat (base_addr pool) + unat (used pool) + k * (unat block_size + 16) + 16"
    using unat_batch_block(1)[OF nw' _ st24] ubs ust pb by simp
  have c3: "idx (g_node_pools ?s') (numa_node arena)
          = Some (Some (pool\<lparr>used := used pool + (block_size + HEADER_SIZE) * 64\<rparr>))"
    using nd assms(2) by (simp add: idx_def MAX_NUMA_NODES_def st_def REFILL_BATCH_SIZE_def)
  have c4: "\<forall>k<64. header_at (mem ?s') (pool_block pool block_size k - HEADER_SIZE) = h"
    using blocks pb unat_batch_block(2)[OF nw' _ st24] by simp
  have c5: "my_arena ?s' t = Some ?arena'" by simp
  have c6: "free_lists ?arena' ! nat cls = pool_block pool block_size 62"
    using szb(1,2) assms(7) pb by (simp add: SIZE_CLASSES_def)
  have "chain_list m' (if (63::nat) = 0 then NULL else batch_block bs st (63 - 1)) 63
          = Some (map (batch_block bs st) (rev [0..<63]))"
  proof (rule chain_list_batch)
    fix k :: nat assume "k < 63"
    then have k: "k < 64" by simp
    show "batch_block bs st k \<noteq> NULL" using nw' st24 k by (rule batch_block_not_null)
    show "next_at m' (batch_block bs st k) = (if k = 0 then NULL else batch_block bs st (k - 1))"
      using blocks[OF k] by simp
  qed simp
  then have c7: "chain_list (mem ?s') (free_lists ?arena' ! nat cls) 63
          = Some (map (pool_block pool block_size) (rev [0..<63]))"
    using c6 pb by simp
  have c8: "pool_block pool block_size 63 \<notin> set (map (pool_block pool block_size) (rev [0..<63]))"
  proof
    assume "pool_block pool block_size 63 \<in> set (map (pool_block pool block_size) (rev [0..<63]))"
    then obtain k where k: "k < 63" and e: "batch_block bs st 63 = batch_block bs st k"
      using pb by auto
    have "(63::nat) = k" using nw' st24 _ _ e by (rule batch_block_inj) (use k in simp_all)
    then show False using k by simp
  qed
  show ?thesis
    using c1 c2 c3 c4 c5 c6 c7 c8 unfolding h_def by blast
qed

theorem C5_slow_path_batch_witness:
  "\<exists>s' arena'.
      slow_path_alloc (set_arena state_one_node 0 (arena_fresh 0)) env_one_node 0 40 2
        = Some (s', 268440512)
    \<and> unat (pool_block \<lparr> node_id = 0, base_addr = 268435456, total_size = 1048576, used = 0 \<rparr>
               64 63) = 268440512
    \<and> idx (g_node_pools s') 0
        = Some (Some \<lparr> node_id = 0, base_addr = 268435456, total_size = 1048576, used = 5120 \<rparr>)
    \<and> header_at (mem s') 268440496 = \<lparr> hdr_size = 64, hdr_size_class = 2, hdr_numa_node = 0 \<rparr>
    \<and> header_at (mem s') 268435456 = \<lparr> hdr_size = 64, hdr_size_class = 2, hdr_numa_node = 0 \<rparr>
    \<and> my_arena s' 0 = Some arena'
    \<and> free_lists arena' ! 2 = 268440432
    \<and> chain_list (mem s') 268440432 63
        = Some (map (pool_block \<lparr> node_id = 0, base_addr = 268435456, total_size = 1048576,
                                  used = 0 \<rparr> 64) (rev [0..<63]))
    \<and> 268440512 \<notin> set (map (pool_block \<lparr> node_id = 0, base_addr = 268435456,
                                  total_size = 1048576, used = 0 \<rparr> 64) (rev [0..<63]))"
proof -
  let ?P = "\<lparr> node_id = 0, base_addr = 268435456, total_size = 1048576, used = 0 \<rparr> :: node_pool_t"
  let ?S = "set_arena state_one_node 0 (arena_fresh 0)"
  have 1: "my_arena ?S 0 = Some (arena_fresh 0)" by simp
  have 2: "length (g_node_pools ?S) = MAX_NUMA_NODES"
    by (simp add: state_one_node_def MAX_NUMA_NODES_def)
  have 3: "idx (g_node_pools ?S) (numa_node (arena_fresh 0)) = Some (Some ?P)"
    by (simp add: state_one_node_def arena_fresh_def idx_def)
  have 4: "idx SIZE_CLASS_SIZES 2 = Some 64" by (simp add: idx_def SIZE_CLASS_SIZES_def)
  have 5: "accessible ?S (base_addr ?P) (unat (total_size ?P))"
    by (simp add: accessible_def state_one_node_def in_range_def)
  have 6: "unat (used ?P) + 64 * (unat (64 :: size_t) + 16) \<le> unat (total_size ?P)" by simp
  have 7: "length (free_lists (arena_fresh 0)) = SIZE_CLASSES" by (simp add: arena_fresh_def)
  have b63: "pool_block ?P 64 63 = 268440512" and b62: "pool_block ?P 64 62 = 268440432"
    and b0: "pool_block ?P 64 0 = 268435472"
    by (simp_all add: pool_block_def batch_block_def HEADER_SIZE_def)
  from C5_slow_path_batch[OF 1 2 3 4 5 6 7, of env_one_node 40]
  obtain s' arena' where
    r: "slow_path_alloc ?S env_one_node 0 40 2 = Some (s', pool_block ?P 64 63)"
    and u: "\<forall>k<64. unat (pool_block ?P 64 k)
             = unat (base_addr ?P) + unat (used ?P) + k * (unat (64 :: size_t) + 16) + 16"
    and p: "idx (g_node_pools s') (numa_node (arena_fresh 0))
          = Some (Some (?P\<lparr>used := used ?P + (64 + HEADER_SIZE) * 64\<rparr>))"
    and h: "\<forall>k<64. header_at (mem s') (pool_block ?P 64 k - HEADER_SIZE)
             = \<lparr> hdr_size = 64, hdr_size_class = 2,
                 hdr_numa_node = numa_node (arena_fresh 0) \<rparr>"
    and a: "my_arena s' 0 = Some arena'"
    and f: "free_lists arena' ! nat 2 = pool_block ?P 64 62"
    and c: "chain_list (mem s') (free_lists arena' ! nat 2) 63
          = Some (map (pool_block ?P 64) (rev [0..<63]))"
    and n: "pool_block ?P 64 63 \<notin> set (map (pool_block ?P 64) (rev [0..<63]))"
    by blast
  have c1: "slow_path_alloc ?S env_one_node 0 40 2 = Some (s', 268440512)"
    using r b63 by simp
  have c2: "unat (pool_block ?P 64 63) = 268440512" using b63 by simp
  have c3: "idx (g_node_pools s') 0
        = Some (Some \<lparr> node_id = 0, base_addr = 268435456, total_size = 1048576, used = 5120 \<rparr>)"
    using p by (simp add: arena_fresh_def HEADER_SIZE_def)
  have "header_at (mem s') (pool_block ?P 64 63 - HEADER_SIZE)
             = \<lparr> hdr_size = 64, hdr_size_class = 2, hdr_numa_node = numa_node (arena_fresh 0) \<rparr>"
    using h by simp
  then have c4: "header_at (mem s') 268440496
      = \<lparr> hdr_size = 64, hdr_size_class = 2, hdr_numa_node = 0 \<rparr>"
    by (simp add: b63 HEADER_SIZE_def arena_fresh_def)
  have "header_at (mem s') (pool_block ?P 64 0 - HEADER_SIZE)
             = \<lparr> hdr_size = 64, hdr_size_class = 2, hdr_numa_node = numa_node (arena_fresh 0) \<rparr>"
    using h by simp
  then have c5: "header_at (mem s') 268435456
      = \<lparr> hdr_size = 64, hdr_size_class = 2, hdr_numa_node = 0 \<rparr>"
    by (simp add: b0 HEADER_SIZE_def arena_fresh_def)
  have c6: "free_lists arena' ! 2 = 268440432" using f b62 by simp
  have c7: "chain_list (mem s') 268440432 63 = Some (map (pool_block ?P 64) (rev [0..<63]))"
    using c c6 by simp
  have c8: "268440512 \<notin> set (map (pool_block ?P 64) (rev [0..<63]))"
    using n b63 by simp
  show ?thesis using c1 c2 c3 c4 c5 a c6 c7 c8 by blast
qed


section \<open>Free lists\<close>

lemma on_stack_not_null: "on_stack m h b \<Longrightarrow> h \<noteq> NULL"
  by (induction rule: on_stack.induct) simp_all

lemma on_stack_null [simp]: "\<not> on_stack m NULL b"
  using on_stack_not_null by blast


lemma stack_ok_null [simp]: "stack_ok own m G NULL cls node"
  by (simp add: stack_ok_def)






section \<open>Frames\<close>





section \<open>Changes that keep the invariant\<close>

lemma pool_at_simps [simp]:
  "pool_at (s\<lparr>mem := m\<rparr>) = pool_at s"
  "pool_at (s\<lparr>my_arena := f\<rparr>) = pool_at s"
  "pool_at (s\<lparr>mapped := r\<rparr>) = pool_at s"
  "pool_at (set_arena s t a) = pool_at s"
  by (simp_all add: pool_at_def fun_eq_iff set_arena_def)

lemma pools_ok_simps [simp]:
  "pools_ok (s\<lparr>mem := m\<rparr>) = pools_ok s"
  "pools_ok (s\<lparr>my_arena := f\<rparr>) = pools_ok s"
  "pools_ok (set_arena s t a) = pools_ok s"
  by (simp_all add: pools_ok_def set_arena_def)

lemma blocks_ok_simps [simp]:
  "block_ok (s\<lparr>my_arena := f\<rparr>) = block_ok s"
  "block_ok (s\<lparr>mapped := r\<rparr>) = block_ok s"
  "blocks_ok (s\<lparr>my_arena := f\<rparr>) = blocks_ok s"
  "blocks_ok (s\<lparr>mapped := r\<rparr>) = blocks_ok s"
  "blocks_ok (set_arena s t a) = blocks_ok s"
  by (simp_all add: block_ok_def blocks_ok_def fun_eq_iff set_arena_def)

lemma large_live_simps [simp]:
  "large_live (s\<lparr>my_arena := f\<rparr>) = large_live s"
  "large_live (set_arena s t a) = large_live s"
  by (simp_all add: large_live_def fun_eq_iff set_arena_def)

lemma arenas_ok_mapped [simp]: "arenas_ok own (s\<lparr>mapped := r\<rparr>) G = arenas_ok own s G"
  by (simp add: arenas_ok_def)




text \<open>\<open>get_or_create_arena\<close> keeps the invariant.\<close>

lemma stack_ok_fresh:
  "i < SIZE_CLASSES \<Longrightarrow> stack_ok own m G (replicate SIZE_CLASSES NULL ! i) cls node"
  by simp


section \<open>The paths of the calls\<close>




section \<open>Stores inside a pool\<close>




section \<open>\<open>numalloc_free\<close> keeps the invariant\<close>







section \<open>The slow path keeps the invariant\<close>



lemma pool_region_used [simp]: "pool_region (pool\<lparr>used := u\<rparr>) = pool_region pool"
  by (simp add: pool_region_def)




section \<open>\<open>numalloc\<close> keeps the invariant\<close>



section \<open>The invariant after \<open>numalloc_init\<close>\<close>

lemma pools_ok_flags [simp]:
  "pools_ok (s\<lparr>g_initialized := b\<rparr>) = pools_ok s"
  "pools_ok (s\<lparr>g_topology := tp\<rparr>) = pools_ok s"
  by (simp_all add: pools_ok_def pool_at_def)






section \<open>The headers of the blocks on the free lists\<close>




section \<open>A block freed by a thread of another node\<close>










end
